theory Spec2Isabelle
  imports Complex_Main "HOL-Library.AList"
begin

section \<open>Values shared by the modules\<close>

text \<open>
  A JavaScript number is modelled by the real number it denotes, and every arithmetic
  operation of the code rounds its exact result to the nearest double, as IEEE 754
  arithmetic does (section "JavaScript numbers"). The doubles have no largest element
  here: a result beyond \<open>Number.MAX_VALUE\<close>, which the program turns into \<open>Infinity\<close> and
  then possibly \<open>NaN\<close>, is outside the model, and so is the sign of zero. What is proved
  here holds in the program as long as no intermediate result overflows. Counts,
  indices and timestamps are integers.

  The fields of an interface carry a prefix naming it (\<open>vd_\<close> for \<open>VectorDocument\<close>, \<open>sd_\<close>
  for \<open>StoredDocument\<close>, \<open>sr_\<close> for \<open>SearchResult\<close>, and so on), since the interfaces
  share field names; a method whose name is taken keeps it with a suffix
  (\<open>size_store\<close>, \<open>clear_store\<close>).

  A JavaScript \<open>Map\<close> is an association list in insertion order with distinct keys:
  \<open>Map.set\<close> is \<^const>\<open>AList.update\<close> (an existing key keeps its place, a new key is
  appended), \<open>Map.get\<close> is \<^const>\<open>map_of\<close>, \<open>Map.delete\<close> is \<^const>\<open>AList.delete\<close>
  and \<open>Map.size\<close> is \<^const>\<open>length\<close>.
\<close>

datatype json =
    JNull
  | JBool bool
  | JNum real
  | JStr string
  | JArr "json list"
  | JObj "(string \<times> json) list"

text \<open>\<open>Record<string, unknown>\<close>: the own properties of a plain object, in order.\<close>

type_synonym jsobject = "(string \<times> json) list"

datatype error =
    DimensionMismatch nat nat
  | QueryDimensionMismatch nat nat
  | QueryVectorRequired
  | KeywordsRequired
  | EmbeddingsUnsupported
  | ProviderError string
  | TypeError

section \<open>JavaScript numbers\<close>

text \<open>
  Rounding to the nearest integer, ties to the even one.
\<close>

definition roundHalfEven :: "real \<Rightarrow> int" where
  "roundHalfEven m =
     (let f = \<lfloor>m\<rfloor>; d = m - of_int f
      in if d < 1 / 2 then f else if 1 / 2 < d then f + 1 else if even f then f else f + 1)"

text \<open>
  The doubles between \<open>2^e\<close> and \<open>2^(e+1)\<close> are the multiples of \<open>2^(e-52)\<close>; below
  \<open>2^(-1022)\<close>, the smallest normal double, they are the multiples of \<open>2^(-1074)\<close>.
  \<open>binade x\<close> is the exponent \<open>e\<close> for \<open>x\<close>, and \<open>ulp x\<close> the distance between the
  doubles around \<open>x\<close>.
\<close>

definition binade :: "real \<Rightarrow> int" where
  "binade x = max \<lfloor>log 2 \<bar>x\<bar>\<rfloor> (- 1022)"

definition ulp :: "real \<Rightarrow> real" where
  "ulp x = 2 powi (binade x - 52)"

text \<open>
  \<open>fl x\<close> is the double nearest to \<open>x\<close>, ties to the even mantissa: the value of an
  arithmetic operation (\<open>+\<close>, \<open>-\<close>, \<open>*\<close>, \<open>/\<close>, \<open>Math.sqrt\<close>) whose exact result is \<open>x\<close>.
  A result of magnitude at most \<open>2^(-1075)\<close> underflows to 0.
\<close>

definition fl :: "real \<Rightarrow> real" where
  "fl x = of_int (roundHalfEven (x / ulp x)) * ulp x"

text \<open>
  The unit roundoff \<open>2^(-53)\<close>, which bounds the relative error of one operation on
  normal doubles, and the smallest normal double.
\<close>

definition unitRoundoff :: real where
  "unitRoundoff = 1 / 2 ^ 53"

definition minNormal :: real where
  "minNormal = 2 powi (- 1022)"

text \<open>The smallest positive double, \<open>Number.MIN_VALUE\<close>: every double is a multiple of it.\<close>

definition minSubnormal :: real where
  "minSubnormal = 2 powi (- 1074)"

section \<open>VectorStore.ts\<close>

datatype DistanceMetric = Cosine | Euclidean | Dot

record VectorDocument =
  vd_id :: string
  vd_content :: string
  vd_vector :: "real list"
  vd_metadata :: "jsobject option"

record SearchResult =
  sr_id :: string
  sr_content :: string
  sr_distance :: real
  sr_similarity :: real
  sr_metadata :: "jsobject option"

record StoredDocument =
  sd_id :: string
  sd_content :: string
  sd_vector :: "real list"
  sd_metadata :: "jsobject option"
  sd_norm :: "real option"

subsection \<open>Distances\<close>

text \<open>
  The loop of \<open>cosineDistance\<close>: \<open>i\<close> runs over the indices of \<open>a\<close> and reads \<open>b[i]\<close>.
  The accumulator is \<open>(dot, nA, nB)\<close>; \<open>dot += a[i] * b[i]\<close> rounds the product and then
  the sum. Every caller passes vectors of the store's dimension, so the two lists have
  the same length; the recursion stops with the shorter one.
\<close>

fun cosineLoop ::
  "bool \<Rightarrow> bool \<Rightarrow> real list \<Rightarrow> real list \<Rightarrow> real \<times> real \<times> real \<Rightarrow> real \<times> real \<times> real" where
  "cosineLoop needNormA needNormB (x # xs) (y # ys) (dot, nA, nB) =
     cosineLoop needNormA needNormB xs ys
       (fl (dot + fl (x * y)),
        if needNormA then fl (nA + fl (x * x)) else nA,
        if needNormB then fl (nB + fl (y * y)) else nB)"
| "cosineLoop needNormA needNormB xs ys acc = acc"

definition cosineDistance :: "real list \<Rightarrow> real list \<Rightarrow> real option \<Rightarrow> real option \<Rightarrow> real" where
  "cosineDistance a b normA normB =
     (let needNormA = (normA = None);
          needNormB = (normB = None);
          (dot, nA, nB) = cosineLoop needNormA needNormB a b
             (0, case normA of None \<Rightarrow> 0 | Some n \<Rightarrow> n, case normB of None \<Rightarrow> 0 | Some n \<Rightarrow> n);
          nA' = (if needNormA then fl (sqrt nA) else nA);
          nB' = (if needNormB then fl (sqrt nB) else nB);
          denom = fl (nA' * nB')
      in if denom = 0 then 1
         else fl (1 - max (- 1) (min 1 (fl (dot / denom)))))"

fun euclideanLoop :: "real list \<Rightarrow> real list \<Rightarrow> real \<Rightarrow> real" where
  "euclideanLoop (x # xs) (y # ys) acc =
     euclideanLoop xs ys (fl (acc + fl (fl (x - y) * fl (x - y))))"
| "euclideanLoop xs ys acc = acc"

definition euclideanDistance :: "real list \<Rightarrow> real list \<Rightarrow> real" where
  "euclideanDistance a b = fl (sqrt (euclideanLoop a b 0))"

fun dotLoop :: "real list \<Rightarrow> real list \<Rightarrow> real \<Rightarrow> real" where
  "dotLoop (x # xs) (y # ys) dot = dotLoop xs ys (fl (dot + fl (x * y)))"
| "dotLoop xs ys dot = dot"

definition dotProductDistance :: "real list \<Rightarrow> real list \<Rightarrow> real" where
  "dotProductDistance a b = - dotLoop a b 0"

fun normLoop :: "real list \<Rightarrow> real \<Rightarrow> real" where
  "normLoop [] acc = acc"
| "normLoop (x # xs) acc = normLoop xs (fl (acc + fl (x * x)))"

definition computeNorm :: "real list \<Rightarrow> real" where
  "computeNorm v = fl (sqrt (normLoop v 0))"

subsection \<open>The store\<close>

text \<open>
  Modelled from the spec: the class \<open>BM25Index\<close> (module \<open>./BM25Index\<close>) is not among the
  sources. Section 4.2: the KeywordIndex "maintains, per document, term frequencies
  over configured text fields"; the state kept here is what those are computed from,
  the configured text fields and, per document id, the fields it was given.
\<close>

record BM25Index =
  bm_textFields :: "string list"
  bm_docs :: "(string \<times> jsobject) list"

text \<open>Modelled from the spec: the missing constructor \<open>new BM25Index({ textFields })\<close>.\<close>

definition newBM25Index :: "string list \<Rightarrow> BM25Index" where
  "newBM25Index textFields = \<lparr>bm_textFields = textFields, bm_docs = []\<rparr>"

text \<open>
  Modelled from the spec: the missing \<open>BM25Index.addDocument(id, fields)\<close>, section 4.2;
  a document added again under its id replaces the earlier one.
\<close>

definition bm_addDocument :: "string \<Rightarrow> jsobject \<Rightarrow> BM25Index \<Rightarrow> BM25Index" where
  "bm_addDocument i flds idx = idx\<lparr>bm_docs := AList.update i flds (bm_docs idx)\<rparr>"

text \<open>Modelled from the spec: the missing \<open>BM25Index.removeDocument(id)\<close>, section 4.2.\<close>

definition bm_removeDocument :: "string \<Rightarrow> BM25Index \<Rightarrow> BM25Index" where
  "bm_removeDocument i idx = idx\<lparr>bm_docs := AList.delete i (bm_docs idx)\<rparr>"

text \<open>Modelled from the spec: the missing \<open>BM25Index.clear()\<close>, section 4.2.\<close>

definition bm_clear :: "BM25Index \<Rightarrow> BM25Index" where
  "bm_clear idx = idx\<lparr>bm_docs := []\<rparr>"

record VectorStore =
  documents :: "(string \<times> StoredDocument) list"
  dimensions :: nat
  distance :: DistanceMetric
  bm25Index :: "BM25Index option"

text \<open>The constructor: \<open>options.distance || 'cosine'\<close>.\<close>

definition newVectorStore :: "nat \<Rightarrow> DistanceMetric option \<Rightarrow> VectorStore" where
  "newVectorStore dims metric =
     \<lparr>documents = [], dimensions = dims,
      distance = (case metric of None \<Rightarrow> Cosine | Some m \<Rightarrow> m),
      bm25Index = None\<rparr>"

definition size_store :: "VectorStore \<Rightarrow> nat" where
  "size_store s = length (documents s)"

definition calculateDistance ::
  "VectorStore \<Rightarrow> real list \<Rightarrow> real list \<Rightarrow> real option \<Rightarrow> real option \<Rightarrow> real" where
  "calculateDistance s a b normA normB =
     (case distance s of
        Cosine \<Rightarrow> cosineDistance a b normA normB
      | Euclidean \<Rightarrow> euclideanDistance a b
      | Dot \<Rightarrow> dotProductDistance a b)"

text \<open>The object literal \<open>{ content: c, ...metadata }\<close>: a later key overrides.\<close>

definition spreadFields :: "string \<Rightarrow> jsobject option \<Rightarrow> jsobject" where
  "spreadFields c md =
     fold (\<lambda>(k, v). AList.update k v) (case md of None \<Rightarrow> [] | Some m \<Rightarrow> m)
       [(''content'', JStr c)]"

text \<open>
  \<open>add\<close> mutates the store or throws; the model returns the outcome and the store
  after the call, so that what a throwing call leaves behind is part of the result.
\<close>

definition add :: "VectorDocument \<Rightarrow> VectorStore \<Rightarrow> (error + unit) \<times> VectorStore" where
  "add doc s =
     (if length (vd_vector doc) \<noteq> dimensions s
      then (Inl (DimensionMismatch (dimensions s) (length (vd_vector doc))), s)
      else
        let nrm = (if distance s = Cosine then Some (computeNorm (vd_vector doc)) else None);
            s1 = s\<lparr>documents := AList.update (vd_id doc)
                    \<lparr>sd_id = vd_id doc, sd_content = vd_content doc,
                     sd_vector = vd_vector doc, sd_metadata = vd_metadata doc,
                     sd_norm = nrm\<rparr> (documents s)\<rparr>;
            s2 = (case bm25Index s1 of
                    None \<Rightarrow> s1
                  | Some idx \<Rightarrow> s1\<lparr>bm25Index :=
                      Some (bm_addDocument (vd_id doc)
                              (spreadFields (vd_content doc) (vd_metadata doc)) idx)\<rparr>)
        in (Inr (), s2))"

text \<open>\<open>addMany\<close> and the loop of \<open>import\<close>: the first throw ends the loop.\<close>

fun addMany :: "VectorDocument list \<Rightarrow> VectorStore \<Rightarrow> (error + unit) \<times> VectorStore" where
  "addMany [] s = (Inr (), s)"
| "addMany (doc # docs) s =
     (case add doc s of
        (Inl e, s') \<Rightarrow> (Inl e, s')
      | (Inr u, s') \<Rightarrow> addMany docs s')"

definition remove :: "string \<Rightarrow> VectorStore \<Rightarrow> bool \<times> VectorStore" where
  "remove i s =
     (let deleted = (map_of (documents s) i \<noteq> None);
          s1 = s\<lparr>documents := AList.delete i (documents s)\<rparr>
      in (deleted,
          case bm25Index s1 of
            Some idx \<Rightarrow> if deleted then s1\<lparr>bm25Index := Some (bm_removeDocument i idx)\<rparr> else s1
          | None \<Rightarrow> s1))"

definition clear_store :: "VectorStore \<Rightarrow> VectorStore" where
  "clear_store s =
     (let s1 = s\<lparr>documents := []\<rparr>
      in case bm25Index s1 of
           Some idx \<Rightarrow> s1\<lparr>bm25Index := Some (bm_clear idx)\<rparr>
         | None \<Rightarrow> s1)"

definition configureBM25 :: "string list \<Rightarrow> VectorStore \<Rightarrow> VectorStore" where
  "configureBM25 textFields s =
     s\<lparr>bm25Index := Some
        (fold (\<lambda>(k, d). bm_addDocument (sd_id d) (spreadFields (sd_content d) (sd_metadata d)))
           (documents s) (newBM25Index textFields))\<rparr>"

text \<open>
  \<open>Array.prototype.slice(0, end)\<close> for an integral \<open>end\<close>: a negative \<open>end\<close> counts from
  the end of the array.
\<close>

definition slice0 :: "int \<Rightarrow> 'a list \<Rightarrow> 'a list" where
  "slice0 e xs =
     (let len = int (length xs);
          final = (if e < 0 then max (len + e) 0 else min e len)
      in take (nat final) xs)"

text \<open>
  The similarity \<open>search\<close> computes from a distance: \<open>1 - distance\<close>, \<open>-distance\<close> (exact)
  or \<open>1 / (1 + distance)\<close>.
\<close>

definition similarityOf :: "DistanceMetric \<Rightarrow> real \<Rightarrow> real" where
  "similarityOf m d =
     (if m = Cosine then fl (1 - d)
      else if m = Dot then - d
      else fl (1 / fl (1 + d)))"

text \<open>
  The body of the loop of \<open>search\<close> for one document: \<open>None\<close> is the \<open>continue\<close>.
\<close>

definition scoreDocument ::
  "VectorStore \<Rightarrow> real list \<Rightarrow> real option \<Rightarrow> real \<Rightarrow> StoredDocument \<Rightarrow> SearchResult option" where
  "scoreDocument s queryVector queryNorm minSimilarity doc =
     (let d = calculateDistance s queryVector (sd_vector doc) queryNorm (sd_norm doc);
          similarity = similarityOf (distance s) d
      in if similarity < minSimilarity then None
         else Some \<lparr>sr_id = sd_id doc, sr_content = sd_content doc, sr_distance = d,
                    sr_similarity = similarity, sr_metadata = sd_metadata doc\<rparr>)"

text \<open>
  \<open>search\<close> does not change the store. \<open>results.sort((a, b) => a.distance - b.distance)\<close>
  is a stable sort by distance (\<^const>\<open>sort_key\<close> is one): the difference of two doubles
  has the sign of their order, since with gradual underflow it is not rounded to 0.
  \<open>k\<close> is any integer.
\<close>

definition search :: "real list \<Rightarrow> int \<Rightarrow> real \<Rightarrow> VectorStore \<Rightarrow> error + SearchResult list" where
  "search queryVector k minSimilarity s =
     (if length queryVector \<noteq> dimensions s
      then Inl (QueryDimensionMismatch (dimensions s) (length queryVector))
      else if size_store s = 0 then Inr []
      else
        let queryNorm = (if distance s = Cosine then Some (computeNorm queryVector) else None);
            results = List.map_filter
                        (\<lambda>(key, doc). scoreDocument s queryVector queryNorm minSimilarity doc)
                        (documents s);
            results' = sort_key sr_distance results
        in Inr (slice0 (min k (int (length results'))) results'))"

definition get :: "string \<Rightarrow> VectorStore \<Rightarrow> VectorDocument option" where
  "get i s =
     (case map_of (documents s) i of
        None \<Rightarrow> None
      | Some doc \<Rightarrow> Some \<lparr>vd_id = sd_id doc, vd_content = sd_content doc,
                          vd_vector = sd_vector doc, vd_metadata = sd_metadata doc\<rparr>)"

record ExportData =
  ex_dimensions :: nat
  ex_distance :: DistanceMetric
  ex_documents :: "VectorDocument list"

definition export :: "VectorStore \<Rightarrow> ExportData" where
  "export s =
     \<lparr>ex_dimensions = dimensions s, ex_distance = distance s,
      ex_documents = map (\<lambda>(key, doc).
          \<lparr>vd_id = sd_id doc, vd_content = sd_content doc,
           vd_vector = sd_vector doc, vd_metadata = sd_metadata doc\<rparr>) (documents s)\<rparr>"

definition import :: "ExportData \<Rightarrow> error + VectorStore" where
  "import data =
     (case addMany (ex_documents data)
             (newVectorStore (ex_dimensions data) (Some (ex_distance data))) of
        (Inl e, s) \<Rightarrow> Inl e
      | (Inr u, s) \<Rightarrow> Inr s)"

text \<open>
  The stores the class can build: a new one, and any store after a call of one of its
  mutating methods (a call of \<open>add\<close> that throws included).
\<close>

inductive reachable :: "VectorStore \<Rightarrow> bool" where
  reach_new: "reachable (newVectorStore dims metric)"
| reach_add: "reachable s \<Longrightarrow> reachable (snd (add doc s))"
| reach_remove: "reachable s \<Longrightarrow> reachable (snd (remove i s))"
| reach_clear: "reachable s \<Longrightarrow> reachable (clear_store s)"
| reach_configure: "reachable s \<Longrightarrow> reachable (configureBM25 textFields s)"

text \<open>What every such store satisfies.\<close>

definition store_inv :: "VectorStore \<Rightarrow> bool" where
  "store_inv s \<longleftrightarrow>
     distinct (map fst (documents s)) \<and>
     (\<forall>(key, doc) \<in> set (documents s).
        sd_id doc = key \<and> length (sd_vector doc) = dimensions s \<and>
        sd_norm doc = (if distance s = Cosine then Some (computeNorm (sd_vector doc)) else None))"


section \<open>HybridSearch.ts\<close>

datatype SearchMode = VectorMode | KeywordMode | HybridMode

datatype FusionMethod = RRF | Weighted

text \<open>
  The result types are imported by \<open>VectorStore.ts\<close>; their fields are the ones it reads
  and writes.
\<close>

record VectorSearchResult =
  vr_id :: string
  vr_distance :: real
  vr_similarity :: real
  vr_metadata :: "jsobject option"

record BM25SearchResult =
  kr_id :: string
  kr_score :: real
  kr_metadata :: "jsobject option"

record HybridSearchResult =
  hr_id :: string
  hr_score :: real
  hr_vectorSimilarity :: "real option"
  hr_keywordScore :: "real option"
  hr_metadata :: "jsobject option"

text \<open>
  What the model takes as a parameter, since \<open>BM25Index.ts\<close> and \<open>HybridSearch.ts\<close> are
  not among the sources: \<open>kw_search\<close> is \<open>BM25Index.search(query, k)\<close> on the indexed
  documents, and \<open>flat_score\<close> is the value min-max normalisation gives to the scores
  of a list whose largest and smallest score coincide, which the spec leaves open.
\<close>

record Absent =
  kw_search :: "BM25Index \<Rightarrow> string \<Rightarrow> int \<Rightarrow> BM25SearchResult list"
  flat_score :: real


text \<open>
  Modelled from the spec: part of the missing \<open>hybridFusion\<close>, the "union of ids" of
  section 4.3, as the first occurrence of every id in order.
\<close>

fun firsts :: "'a list \<Rightarrow> 'a list" where
  "firsts [] = []"
| "firsts (x # xs) = x # firsts (removeAll x xs)"

text \<open>
  Modelled from the spec: part of the missing \<open>hybridFusion\<close>, the score of a document in
  one list, where "missing-from-a-list contributes 0".
\<close>

definition scoreIn :: "(string \<times> real) list \<Rightarrow> string \<Rightarrow> real" where
  "scoreIn xs i = (case map_of xs i of None \<Rightarrow> 0 | Some x \<Rightarrow> x)"

text \<open>
  Modelled from the spec: part of the missing \<open>hybridFusion\<close>, section 4.3: "each list's
  scores are independently min-max normalized to [0,1]".
\<close>

definition minMaxNormalize :: "real \<Rightarrow> (string \<times> real) list \<Rightarrow> (string \<times> real) list" where
  "minMaxNormalize flat xs =
     (case map snd xs of
        [] \<Rightarrow> []
      | v # vs \<Rightarrow>
          let lo = fold min vs v; hi = fold max vs v
          in map (\<lambda>(i, x). (i, if hi = lo then flat else (x - lo) / (hi - lo))) xs)"

text \<open>
  Modelled from the spec: part of the missing \<open>hybridFusion\<close>, one document of the result
  "with its available component scores attached"; the metadata is the one of the
  vector result when there is one.
\<close>

definition fusedEntry ::
  "(string \<Rightarrow> real) \<Rightarrow> VectorSearchResult list \<Rightarrow> BM25SearchResult list \<Rightarrow> string \<Rightarrow>
   HybridSearchResult" where
  "fusedEntry score vectorResults keywordResults i =
     \<lparr>hr_id = i, hr_score = score i,
      hr_vectorSimilarity = map_of (map (\<lambda>r. (vr_id r, vr_similarity r)) vectorResults) i,
      hr_keywordScore = map_of (map (\<lambda>r. (kr_id r, kr_score r)) keywordResults) i,
      hr_metadata =
        (case map_of (map (\<lambda>r. (vr_id r, vr_metadata r)) vectorResults) i of
           Some md \<Rightarrow> md
         | None \<Rightarrow>
             (case map_of (map (\<lambda>r. (kr_id r, kr_metadata r)) keywordResults) i of
                Some md \<Rightarrow> md
              | None \<Rightarrow> None))\<rparr>"

text \<open>
  Modelled from the spec: part of the missing \<open>hybridFusion\<close>, section 4.3: "union of ids,
  sorted descending by combined score, top-k kept". The union lists the vector results
  first and the sort is stable, which the spec leaves open.
\<close>

definition fuse ::
  "(string \<Rightarrow> real) \<Rightarrow> VectorSearchResult list \<Rightarrow> BM25SearchResult list \<Rightarrow> int \<Rightarrow>
   HybridSearchResult list" where
  "fuse score vectorResults keywordResults k =
     slice0 k (sort_key (\<lambda>r. - hr_score r)
       (map (fusedEntry score vectorResults keywordResults)
          (firsts (map vr_id vectorResults @ map kr_id keywordResults))))"

text \<open>
  Modelled from the spec: the weighted method of the missing \<open>hybridFusion\<close>, section
  4.3: "score(doc) = alpha * vecNorm(doc) + (1 - alpha) * kwNorm(doc),
  missing-from-a-list contributes 0 for that term. alpha=1 must reduce exactly to the
  vector ranking; alpha=0 to the keyword ranking". A list whose weight is 0 therefore
  takes no part in the fusion: its documents are not candidates.
\<close>

definition weightedFusion ::
  "real \<Rightarrow> VectorSearchResult list \<Rightarrow> BM25SearchResult list \<Rightarrow> int \<Rightarrow> real \<Rightarrow>
   HybridSearchResult list" where
  "weightedFusion flat vectorResults keywordResults k alpha =
     (let vs = (if alpha = 0 then [] else vectorResults);
          ks = (if 1 - alpha = 0 then [] else keywordResults);
          vecNorm = minMaxNormalize flat (map (\<lambda>r. (vr_id r, vr_similarity r)) vs);
          kwNorm = minMaxNormalize flat (map (\<lambda>r. (kr_id r, kr_score r)) ks)
      in fuse (\<lambda>i. alpha * scoreIn vecNorm i + (1 - alpha) * scoreIn kwNorm i) vs ks k)"

text \<open>
  Modelled from the spec: part of the missing \<open>hybridFusion\<close>, section 4.3: "each list is
  treated as 1-based ranked positions", a document at rank \<open>r\<close> scoring \<open>1/(r + c)\<close>.
\<close>

definition rankScores :: "real \<Rightarrow> string list \<Rightarrow> (string \<times> real) list" where
  "rankScores c ids = map (\<lambda>(i, rank). (i, 1 / (real rank + c))) (zip ids [1 ..< Suc (length ids)])"

text \<open>
  Modelled from the spec: the reciprocal-rank method of the missing \<open>hybridFusion\<close>,
  section 4.3: "score(doc) = sum over lists of 1/(rank_in_list + c); a document absent
  from one list contributes 0 for that list".
\<close>

definition reciprocalRankFusion ::
  "VectorSearchResult list \<Rightarrow> BM25SearchResult list \<Rightarrow> int \<Rightarrow> real \<Rightarrow>
   HybridSearchResult list" where
  "reciprocalRankFusion vectorResults keywordResults k c =
     fuse (\<lambda>i. scoreIn (rankScores c (map vr_id vectorResults)) i +
                scoreIn (rankScores c (map kr_id keywordResults)) i)
       vectorResults keywordResults k"

text \<open>
  Modelled from the spec: \<open>hybridFusion\<close> of the missing module \<open>./HybridSearch\<close>, called
  by \<open>VectorStore.hybridSearch\<close>: the method chosen by \<open>fusionMethod\<close>, with the spec's
  default \<open>c = 60\<close>.
\<close>

definition hybridFusion ::
  "real \<Rightarrow> VectorSearchResult list \<Rightarrow> BM25SearchResult list \<Rightarrow> int \<Rightarrow> FusionMethod \<Rightarrow>
   real \<Rightarrow> HybridSearchResult list" where
  "hybridFusion flat vectorResults keywordResults k fusionMethod alpha =
     (case fusionMethod of
        Weighted \<Rightarrow> weightedFusion flat vectorResults keywordResults k alpha
      | RRF \<Rightarrow> reciprocalRankFusion vectorResults keywordResults k 60)"

section \<open>VectorStore.ts: keyword and hybrid search\<close>

record HybridSearchOptions =
  ho_mode :: SearchMode
  ho_k :: int
  ho_queryVector :: "real list option"
  ho_keywords :: "string option"
  ho_alpha :: "real option"
  ho_fusionMethod :: "FusionMethod option"

text \<open>\<open>keywordSearch\<close> builds the keyword index when there is none.\<close>

definition keywordSearch ::
  "Absent \<Rightarrow> string \<Rightarrow> int \<Rightarrow> VectorStore \<Rightarrow> BM25SearchResult list \<times> VectorStore" where
  "keywordSearch ab query k s =
     (let s1 = (if bm25Index s = None then configureBM25 [''content''] s else s)
      in case bm25Index s1 of
           Some idx \<Rightarrow> (kw_search ab idx query k, s1)
         | None \<Rightarrow> ([], s1))"

text \<open>
  \<open>!keywords\<close>: an absent and an empty string are both falsy; \<open>truthyString\<close> gives
  the string when it is truthy.
\<close>

definition truthyString :: "string option \<Rightarrow> string option" where
  "truthyString x = (case x of None \<Rightarrow> None | Some t \<Rightarrow> if t = [] then None else Some t)"

text \<open>The object literal \<open>{ ...metadata, content: c }\<close>.\<close>

definition withContent :: "jsobject option \<Rightarrow> string \<Rightarrow> jsobject" where
  "withContent md c = AList.update ''content'' (JStr c) (case md of None \<Rightarrow> [] | Some m \<Rightarrow> m)"

definition hybridSearch ::
  "Absent \<Rightarrow> HybridSearchOptions \<Rightarrow> VectorStore \<Rightarrow>
   (error + HybridSearchResult list) \<times> VectorStore" where
  "hybridSearch ab options s =
     (let mode = ho_mode options; k = ho_k options;
          alpha = (case ho_alpha options of None \<Rightarrow> 1 / 2 | Some a \<Rightarrow> a);
          fusionMethod = (case ho_fusionMethod options of None \<Rightarrow> RRF | Some m \<Rightarrow> m)
      in
      if mode = VectorMode then
        (case ho_queryVector options of
           None \<Rightarrow> (Inl QueryVectorRequired, s)
         | Some queryVector \<Rightarrow>
             (case search queryVector k 0 s of
                Inl e \<Rightarrow> (Inl e, s)
              | Inr rs \<Rightarrow>
                  (Inr (map (\<lambda>r. \<lparr>hr_id = sr_id r, hr_score = sr_similarity r,
                              hr_vectorSimilarity = Some (sr_similarity r),
                              hr_keywordScore = None,
                              hr_metadata = Some (withContent (sr_metadata r) (sr_content r))\<rparr>)
                         rs), s)))
      else if mode = KeywordMode then
        (case truthyString (ho_keywords options) of
           None \<Rightarrow> (Inl KeywordsRequired, s)
         | Some keywords \<Rightarrow>
             (case keywordSearch ab keywords k s of
                (results, s1) \<Rightarrow>
                  (Inr (map (\<lambda>r. \<lparr>hr_id = kr_id r, hr_score = kr_score r,
                              hr_vectorSimilarity = None,
                              hr_keywordScore = Some (kr_score r),
                              hr_metadata = Some
                                (case map_of (documents s1) (kr_id r) of
                                   Some doc \<Rightarrow> withContent (kr_metadata r) (sd_content doc)
                                 | None \<Rightarrow> AList.delete ''content''
                                     (case kr_metadata r of None \<Rightarrow> [] | Some m \<Rightarrow> m))\<rparr>)
                         results), s1)))
      else
        (case ho_queryVector options of
           None \<Rightarrow> (Inl QueryVectorRequired, s)
         | Some queryVector \<Rightarrow>
             (case truthyString (ho_keywords options) of
                None \<Rightarrow> (Inl KeywordsRequired, s)
              | Some keywords \<Rightarrow>
                  (case search queryVector (max (k * 3) 50) 0 s of
                     Inl e \<Rightarrow> (Inl e, s)
                   | Inr vectorResults \<Rightarrow>
                       (case keywordSearch ab keywords (max (k * 3) 50) s of
                          (keywordResults, s1) \<Rightarrow>
                            (Inr (hybridFusion (flat_score ab)
                                    (map (\<lambda>r. \<lparr>vr_id = sr_id r, vr_distance = sr_distance r,
                                            vr_similarity = sr_similarity r,
                                            vr_metadata = Some
                                              (withContent (sr_metadata r) (sr_content r))\<rparr>)
                                       vectorResults)
                                    keywordResults k fusionMethod alpha), s1))))))"

section \<open>RAGMemory.ts\<close>

datatype Role = System | User | Assistant | Tool

record ToolCall =
  tc_id :: string
  tc_name :: string
  tc_arguments :: jsobject

record Message =
  msg_role :: Role
  msg_content :: string
  msg_toolCallId :: "string option"
  msg_toolCalls :: "ToolCall list option"

record RAGConfig =
  sessionId :: string
  cfg_dimensions :: nat
  maxContextMessages :: "int option"
  minSimilarity :: "real option"
  searchMode :: "SearchMode option"
  persistToStaticData :: "bool option"

record HistoryItem =
  hi_content :: string
  hi_role :: string
  hi_similarity :: real
  hi_metadata :: "jsobject option"

record RAGContext =
  rc_messages :: "Message list"
  rc_relevantHistory :: "HistoryItem list"

record StoreEntry =
  e_store :: VectorStore
  e_messages :: "Message list"
  e_lastAccess :: int

text \<open>
  A value of the workflow's static data. A string is represented by what
  \<open>JSON.parse\<close> makes of it: \<open>None\<close> when it throws, otherwise the parsed value read at
  the type the loader casts it to, \<open>{store, messages}\<close>, where either property can be
  absent. A parsed value that is not an object, or has no \<open>store\<close>, is \<open>pb_store = None\<close>:
  reading \<open>data.store\<close> or \<open>data.store.dimensions\<close> then throws a TypeError. The cast
  checks nothing, so a parsed value can hold other types in these places; such values
  are outside the model. What \<open>JSON.stringify\<close> writes parses back to the value
  written.
\<close>

record ParsedBlob =
  pb_store :: "ExportData option"
  pb_messages :: "Message list option"

datatype stored = StoredString "ParsedBlob option" | StoredOther

text \<open>
  The state outside a \<open>RAGMemory\<close> object: the module's registry \<open>ragStores\<close>, the
  workflow's static data, the calls received by the provider's \<open>embed\<close>, the clock read
  by \<open>Date.now()\<close> (the \<open>n\<close>-th read returns \<open>clock n\<close>) and the source of
  \<open>Math.random().toString(36).substring(2, 7)\<close>.
\<close>

record World =
  ragStores :: "(string \<times> StoreEntry) list"
  staticData :: "(string \<times> stored) list"
  embedCalls :: "string list list"
  clock :: "nat \<Rightarrow> int"
  ticks :: nat
  randoms :: "nat \<Rightarrow> string"
  draws :: nat

record RAGMemory =
  rm_config :: RAGConfig
  rm_embed :: "(string list \<Rightarrow> error + real list list) option"
  rm_executeFunctions :: "string option option"
  rm_storeKey :: string

definition STORE_TTL :: int where
  "STORE_TTL = 60 * 60 * 1000"

definition Date_now :: "World \<Rightarrow> int \<times> World" where
  "Date_now w = (clock w (ticks w), w\<lparr>ticks := Suc (ticks w)\<rparr>)"

definition Math_random :: "World \<Rightarrow> string \<times> World" where
  "Math_random w = (randoms w (draws w), w\<lparr>draws := Suc (draws w)\<rparr>)"

text \<open>
  The loop of \<open>cleanupExpiredStores\<close> visits every entry of the registry and deletes the
  expired ones from it.
\<close>

definition cleanupExpiredStores :: "World \<Rightarrow> World" where
  "cleanupExpiredStores w =
     (case Date_now w of
        (now, w1) \<Rightarrow>
          w1\<lparr>ragStores :=
               fold (\<lambda>(key, val) m.
                       if now - e_lastAccess val > STORE_TTL then AList.delete key m else m)
                 (ragStores w1) (ragStores w1)\<rparr>)"

text \<open>
  The constructor: the defaults, overridden by the properties the caller's config has;
  \<open>executeFunctions?.getWorkflow().id ?? 'default'\<close>.
\<close>

definition newRAGMemory ::
  "RAGConfig \<Rightarrow> (string list \<Rightarrow> error + real list list) option \<Rightarrow> string option option \<Rightarrow>
   RAGMemory" where
  "newRAGMemory config embedFn executeFunctions =
     \<lparr>rm_config = config
        \<lparr>maxContextMessages :=
           (case maxContextMessages config of None \<Rightarrow> Some 10 | Some v \<Rightarrow> Some v),
         minSimilarity :=
           (case minSimilarity config of None \<Rightarrow> Some (1 / 2) | Some v \<Rightarrow> Some v),
         searchMode :=
           (case searchMode config of None \<Rightarrow> Some HybridMode | Some v \<Rightarrow> Some v),
         persistToStaticData :=
           (case persistToStaticData config of None \<Rightarrow> Some False | Some v \<Rightarrow> Some v)\<rparr>,
      rm_embed = embedFn,
      rm_executeFunctions = executeFunctions,
      rm_storeKey =
        (case executeFunctions of
           Some (Some workflowId) \<Rightarrow> workflowId
         | _ \<Rightarrow> ''default'') @ ''__'' @ sessionId config\<rparr>"

definition staticKey :: "RAGMemory \<Rightarrow> string" where
  "staticKey rag = ''rag_'' @ sessionId (rm_config rag)"

text \<open>
  \<open>loadFromStaticData\<close>: everything between \<open>try\<close> and \<open>catch\<close> that throws gives \<open>null\<close>.
\<close>

definition loadFromStaticData :: "RAGMemory \<Rightarrow> World \<Rightarrow> StoreEntry option \<times> World" where
  "loadFromStaticData rag w =
     (if rm_executeFunctions rag = None then (None, w)
      else
        case map_of (staticData w) (staticKey rag) of
          Some (StoredString parsed) \<Rightarrow>
            (case parsed of
               None \<Rightarrow> (None, w)
             | Some data \<Rightarrow>
                 (case pb_store data of
                    None \<Rightarrow> (None, w)
                  | Some storeData \<Rightarrow>
                      (case import storeData of
                         Inl e \<Rightarrow> (None, w)
                       | Inr store \<Rightarrow>
                           (case Date_now w of
                              (now, w1) \<Rightarrow>
                                (Some \<lparr>e_store = configureBM25 [''content''] store,
                                       e_messages =
                                         (case pb_messages data of None \<Rightarrow> [] | Some ms \<Rightarrow> ms),
                                       e_lastAccess = now\<rparr>, w1)))))
        | _ \<Rightarrow> (None, w))"

definition freshEntry :: "RAGMemory \<Rightarrow> World \<Rightarrow> StoreEntry \<times> World" where
  "freshEntry rag w =
     (case Date_now w of
        (now, w1) \<Rightarrow>
          (\<lparr>e_store = configureBM25 [''content'']
                        (newVectorStore (cfg_dimensions (rm_config rag)) (Some Cosine)),
            e_messages = [], e_lastAccess = now\<rparr>, w1))"

text \<open>
  \<open>getStore\<close> returns the entry of the session, which stays in the registry under
  \<open>storeKey\<close>: the caller's \<open>store\<close> and \<open>messages\<close> are that entry's.
\<close>

definition getStore :: "RAGMemory \<Rightarrow> World \<Rightarrow> StoreEntry \<times> World" where
  "getStore rag w =
     (let w1 = cleanupExpiredStores w;
          (entry, w2) =
            (case map_of (ragStores w1) (rm_storeKey rag) of
               Some entry \<Rightarrow> (entry, w1)
             | None \<Rightarrow>
                 (case (if persistToStaticData (rm_config rag) = Some True \<and>
                           rm_executeFunctions rag \<noteq> None
                        then loadFromStaticData rag w1 else (None, w1)) of
                    (Some loaded, w') \<Rightarrow>
                      (loaded, w'\<lparr>ragStores :=
                                   AList.update (rm_storeKey rag) loaded (ragStores w')\<rparr>)
                  | (None, w') \<Rightarrow>
                      (case freshEntry rag w' of
                         (entry, w'') \<Rightarrow>
                           (entry, w''\<lparr>ragStores :=
                                      AList.update (rm_storeKey rag) entry (ragStores w'')\<rparr>))));
          (now, w3) = Date_now w2;
          entry' = entry\<lparr>e_lastAccess := now\<rparr>
      in (entry', w3\<lparr>ragStores := AList.update (rm_storeKey rag) entry' (ragStores w3)\<rparr>))"

text \<open>\<open>embed\<close>: one call of the provider with the one text; \<open>embeddings[0]\<close>.\<close>

definition embed :: "RAGMemory \<Rightarrow> string \<Rightarrow> World \<Rightarrow> (error + real list option) \<times> World" where
  "embed rag txt w =
     (case rm_embed rag of
        None \<Rightarrow> (Inl EmbeddingsUnsupported, w)
      | Some f \<Rightarrow>
          (let w1 = w\<lparr>embedCalls := embedCalls w @ [[txt]]\<rparr>
           in case f [txt] of
                Inl e \<Rightarrow> (Inl e, w1)
              | Inr embeddings \<Rightarrow>
                  (Inr (case embeddings of [] \<Rightarrow> None | v # vs \<Rightarrow> Some v), w1)))"

text \<open>
  \<open>String.prototype.trim\<close> on strings of code units below 256: the white space and
  line terminators there are tab, line feed, vertical tab, form feed, carriage return,
  space and no-break space.
\<close>

definition isWhiteSpace :: "char \<Rightarrow> bool" where
  "isWhiteSpace c \<longleftrightarrow> (of_char c :: nat) \<in> {9, 10, 11, 12, 13, 32, 160}"

definition trim :: "string \<Rightarrow> string" where
  "trim t = rev (dropWhile isWhiteSpace (rev (dropWhile isWhiteSpace t)))"

fun showNat :: "nat \<Rightarrow> string" where
  "showNat n =
     (if n < 10 then [char_of (48 + n)]
      else showNat (n div 10) @ [char_of (48 + n mod 10)])"

declare showNat.simps [simp del]

definition showInt :: "int \<Rightarrow> string" where
  "showInt i = (if i < 0 then CHR ''-'' # showNat (nat (- i)) else showNat (nat i))"

definition roleName :: "Role \<Rightarrow> string" where
  "roleName r = (case r of System \<Rightarrow> ''system'' | User \<Rightarrow> ''user''
                 | Assistant \<Rightarrow> ''assistant'' | Tool \<Rightarrow> ''tool'')"

definition saveToStaticData :: "RAGMemory \<Rightarrow> World \<Rightarrow> World" where
  "saveToStaticData rag w =
     (if rm_executeFunctions rag = None then w
      else
        case getStore rag w of
          (entry, w1) \<Rightarrow>
            w1\<lparr>staticData := AList.update (staticKey rag)
                 (StoredString (Some \<lparr>pb_store = Some (export (e_store entry)),
                                       pb_messages = Some (e_messages entry)\<rparr>))
                 (staticData w1)\<rparr>)"

text \<open>
  \<open>addMessage\<close>. The entry obtained from \<open>getStore\<close> is mutated in place, so the changes
  of \<open>store.add\<close> and \<open>messages.push\<close> are changes of the registry's entry.
\<close>

definition addMessage :: "RAGMemory \<Rightarrow> Message \<Rightarrow> World \<Rightarrow> (error + unit) \<times> World" where
  "addMessage rag message w =
     (case getStore rag w of
        (entry, w1) \<Rightarrow>
          if msg_role message = System \<or> trim (msg_content message) = [] then (Inr (), w1)
          else
            (case embed rag (msg_content message) w1 of
               (Inl e, w2) \<Rightarrow> (Inl e, w2)
             | (Inr vector, w2) \<Rightarrow>
                 (case Date_now w2 of
                    (t1, w3) \<Rightarrow>
                      (case Math_random w3 of
                         (rnd, w4) \<Rightarrow>
                           (case Date_now w4 of
                              (t2, w5) \<Rightarrow>
                                (case vector of
                                   None \<Rightarrow> (Inl TypeError, w5)
                                 | Some v \<Rightarrow>
                                     (case add
                                        \<lparr>vd_id = ''msg_'' @ showInt t1 @ ''_'' @ rnd,
                                         vd_content = msg_content message,
                                         vd_vector = v,
                                         vd_metadata = Some
                                           ([(''role'', JStr (roleName (msg_role message))),
                                             (''timestamp'', JNum (real_of_int t2))] @
                                            (case truthyString (msg_toolCallId message) of
                                               None \<Rightarrow> []
                                             | Some c \<Rightarrow> [(''toolCallId'', JStr c)]))\<rparr>
                                        (e_store entry) of
                                        (Inl e, store') \<Rightarrow> (Inl e, w5)
                                      | (Inr u, store') \<Rightarrow>
                                          (let w6 = w5\<lparr>ragStores :=
                                                 AList.map_entry (rm_storeKey rag)
                                                   (\<lambda>en. en\<lparr>e_store := store',
                                                        e_messages := e_messages en @ [message]\<rparr>)
                                                   (ragStores w5)\<rparr>
                                           in if persistToStaticData (rm_config rag) = Some True
                                              then (Inr (), saveToStaticData rag w6)
                                              else (Inr (), w6)))))))))"

text \<open>The value of \<open>(x as string) || dflt\<close> for a property of a metadata object.\<close>

definition stringOr :: "jsobject option \<Rightarrow> string \<Rightarrow> string \<Rightarrow> string" where
  "stringOr md key dflt =
     (case md of
        None \<Rightarrow> dflt
      | Some m \<Rightarrow> (case map_of m key of Some (JStr t) \<Rightarrow> if t = [] then dflt else t | _ \<Rightarrow> dflt))"

text \<open>
  The block \<open>if (store.size > 0) { ... }\<close> of \<open>getContext\<close>: the search of the configured
  mode, with the store after it (\<open>keywordSearch\<close> builds a missing keyword index).
\<close>

definition searchByMode ::
  "Absent \<Rightarrow> RAGMemory \<Rightarrow> VectorStore \<Rightarrow> real list option \<Rightarrow> string \<Rightarrow> int \<Rightarrow>
   (error + HistoryItem list) \<times> VectorStore" where
  "searchByMode ab rag store queryVector query maxK =
     (if size_store store > 0 then
        (if searchMode (rm_config rag) = Some HybridMode then
           (case hybridSearch ab
                   \<lparr>ho_mode = HybridMode, ho_k = maxK,
                    ho_queryVector = queryVector, ho_keywords = Some query,
                    ho_alpha = Some (1 / 2), ho_fusionMethod = None\<rparr> store of
              (Inl e, store') \<Rightarrow> (Inl e, store')
            | (Inr results, store') \<Rightarrow>
                (Inr (map (\<lambda>r.
                   \<lparr>hi_content = stringOr (hr_metadata r) ''content'' [],
                    hi_role = stringOr (hr_metadata r) ''role'' ''unknown'',
                    hi_similarity =
                      (case hr_vectorSimilarity r of Some x \<Rightarrow> x | None \<Rightarrow> hr_score r),
                    hi_metadata = hr_metadata r\<rparr>) results), store'))
         else if searchMode (rm_config rag) = Some KeywordMode then
           (case keywordSearch ab query maxK store of
              (results, store') \<Rightarrow>
                (Inr (map (\<lambda>r.
                   \<lparr>hi_content =
                      (case get (kr_id r) store' of Some doc \<Rightarrow> vd_content doc | None \<Rightarrow> []),
                    hi_role =
                      (case get (kr_id r) store' of
                         Some doc \<Rightarrow> stringOr (vd_metadata doc) ''role'' ''unknown''
                       | None \<Rightarrow> ''unknown''),
                    hi_similarity = kr_score r,
                    hi_metadata = kr_metadata r\<rparr>) results), store'))
         else
           (case queryVector of
              None \<Rightarrow> (Inl TypeError, store)
            | Some qv \<Rightarrow>
                (case search qv maxK
                        (case minSimilarity (rm_config rag) of Some x \<Rightarrow> x | None \<Rightarrow> 0)
                        store of
                   Inl e \<Rightarrow> (Inl e, store)
                 | Inr results \<Rightarrow>
                     (Inr (map (\<lambda>r.
                        \<lparr>hi_content = sr_content r,
                         hi_role = stringOr (sr_metadata r) ''role'' ''unknown'',
                         hi_similarity = sr_similarity r,
                         hi_metadata = sr_metadata r\<rparr>) results), store))))
      else (Inr [], store))"

text \<open>
  \<open>getContext\<close>: the cache access, the embedding of the query, the search, the filter.
  The store after the search is the entry's store.
\<close>

definition getContext ::
  "Absent \<Rightarrow> RAGMemory \<Rightarrow> string \<Rightarrow> int option \<Rightarrow> World \<Rightarrow> (error + RAGContext) \<times> World" where
  "getContext ab rag query k w =
     (case getStore rag w of
        (entry, w1) \<Rightarrow>
          (let store = e_store entry; messages = e_messages entry;
               maxK = (case k of Some k' \<Rightarrow> k'
                       | None \<Rightarrow> (case maxContextMessages (rm_config rag) of
                                    Some m \<Rightarrow> m | None \<Rightarrow> 10))
           in case embed rag query w1 of
                (Inl e, w2) \<Rightarrow> (Inl e, w2)
              | (Inr queryVector, w2) \<Rightarrow>
                  (case searchByMode ab rag store queryVector query maxK of
                     (Inl e, store') \<Rightarrow>
                       (Inl e, w2\<lparr>ragStores := AList.map_entry (rm_storeKey rag)
                                    (\<lambda>en. en\<lparr>e_store := store'\<rparr>) (ragStores w2)\<rparr>)
                   | (Inr relevantHistory, store') \<Rightarrow>
                       (Inr \<lparr>rc_messages = messages,
                             rc_relevantHistory =
                               (case minSimilarity (rm_config rag) of
                                  None \<Rightarrow> relevantHistory
                                | Some x \<Rightarrow>
                                    if x = 0 then relevantHistory
                                    else filter (\<lambda>h. hi_similarity h \<ge> x) relevantHistory)\<rparr>,
                        w2\<lparr>ragStores := AList.map_entry (rm_storeKey rag)
                              (\<lambda>en. en\<lparr>e_store := store'\<rparr>) (ragStores w2)\<rparr>))))"

definition getMessages :: "RAGMemory \<Rightarrow> World \<Rightarrow> Message list \<times> World" where
  "getMessages rag w = (case getStore rag w of (entry, w1) \<Rightarrow> (e_messages entry, w1))"

text \<open>\<open>clear\<close> deletes the entry and, with persistence, the stored value.\<close>

definition clear :: "RAGMemory \<Rightarrow> World \<Rightarrow> World" where
  "clear rag w =
     (let w1 = w\<lparr>ragStores := AList.delete (rm_storeKey rag) (ragStores w)\<rparr>
      in if persistToStaticData (rm_config rag) = Some True \<and> rm_executeFunctions rag \<noteq> None
         then w1\<lparr>staticData := AList.delete (staticKey rag) (staticData w1)\<rparr>
         else w1)"

section \<open>Example data\<close>

text \<open>Scenario A of the spec: two unit vectors under the cosine metric.\<close>

definition docA :: VectorDocument where
  "docA = \<lparr>vd_id = ''a'', vd_content = ''cats are great'', vd_vector = [1, 0],
            vd_metadata = None\<rparr>"

definition docB :: VectorDocument where
  "docB = \<lparr>vd_id = ''b'', vd_content = ''dogs are great'', vd_vector = [0, 1],
            vd_metadata = Some [(''role'', JStr ''user'')]\<rparr>"

definition exampleStore :: VectorStore where
  "exampleStore = snd (add docB (snd (add docA (newVectorStore 2 None))))"

text \<open>A provider without \<open>embed\<close>, a provider with it, and two sessions idle for two hours.\<close>

definition exampleAbsent :: Absent where
  "exampleAbsent = \<lparr>kw_search = (\<lambda>idx query k. []), flat_score = 1\<rparr>"

definition exampleConfig :: RAGConfig where
  "exampleConfig =
     \<lparr>sessionId = ''s1'', cfg_dimensions = 2, maxContextMessages = None,
      minSimilarity = None, searchMode = Some KeywordMode, persistToStaticData = None\<rparr>"

definition exampleRag :: RAGMemory where
  "exampleRag = newRAGMemory exampleConfig None (Some (Some ''wf''))"

definition exampleEmbed :: "string list \<Rightarrow> error + real list list" where
  "exampleEmbed texts = Inr (map (\<lambda>t. [1, 0]) texts)"

definition exampleRagEmbedding :: RAGMemory where
  "exampleRagEmbedding = newRAGMemory exampleConfig (Some exampleEmbed) (Some (Some ''wf''))"

definition exampleMessage :: Message where
  "exampleMessage =
     \<lparr>msg_role = User, msg_content = ''cats are great'', msg_toolCallId = None,
      msg_toolCalls = None\<rparr>"

definition systemMessage :: Message where
  "systemMessage =
     \<lparr>msg_role = System, msg_content = ''You are helpful'', msg_toolCallId = None,
      msg_toolCalls = None\<rparr>"

definition exampleWorld :: World where
  "exampleWorld =
     \<lparr>ragStores =
        [(''wf__s1'', \<lparr>e_store = configureBM25 [''content''] exampleStore,
                        e_messages = [exampleMessage], e_lastAccess = 0\<rparr>),
         (''wf__s2'', \<lparr>e_store = configureBM25 [''content''] (newVectorStore 2 (Some Cosine)),
                        e_messages = [], e_lastAccess = 0\<rparr>)],
      staticData = [],
      embedCalls = [],
      clock = (\<lambda>n. 7200000 + int n),
      ticks = 0,
      randoms = (\<lambda>n. ''k3x9q''),
      draws = 0\<rparr>"

section \<open>Notions used in the proofs\<close>

text \<open>The keys \<open>cleanupExpiredStores\<close> deletes at time \<open>now\<close>.\<close>

definition expiredKeys :: "int \<Rightarrow> (string \<times> StoreEntry) list \<Rightarrow> string set" where
  "expiredKeys now xs =
     {key. \<exists>val. (key, val) \<in> set xs \<and> now - e_lastAccess val > STORE_TTL}"

text \<open>The last statements of \<open>getStore\<close>: stamp the entry and keep it in the registry.\<close>

definition touch :: "string \<Rightarrow> StoreEntry \<Rightarrow> World \<Rightarrow> StoreEntry \<times> World" where
  "touch key entry w =
     (entry\<lparr>e_lastAccess := clock w (ticks w)\<rparr>,
      w\<lparr>ticks := Suc (ticks w),
        ragStores := AList.update key (entry\<lparr>e_lastAccess := clock w (ticks w)\<rparr>)
                       (ragStores w)\<rparr>)"

text \<open>
  The stored values the loader cannot restore: not a string, a string that does not
  parse, a parsed value without a \<open>store\<close>, a document whose vector length is not the
  stored \<open>dimensions\<close>.
\<close>

definition unreadable :: "stored \<Rightarrow> bool" where
  "unreadable v =
     (case v of
        StoredOther \<Rightarrow> True
      | StoredString None \<Rightarrow> True
      | StoredString (Some data) \<Rightarrow>
          (case pb_store data of
             None \<Rightarrow> True
           | Some sd \<Rightarrow> \<exists>doc \<in> set (ex_documents sd). length (vd_vector doc) \<noteq> ex_dimensions sd))"

text \<open>Worlds for the examples: a session seen one second ago, and persisted values.\<close>

definition liveWorld :: World where
  "liveWorld = exampleWorld\<lparr>clock := (\<lambda>n. 1000 + int n)\<rparr>"

definition liveEntry :: StoreEntry where
  "liveEntry = \<lparr>e_store = configureBM25 [''content''] exampleStore,
                 e_messages = [exampleMessage], e_lastAccess = 0\<rparr>"

definition blankMessage :: Message where
  "blankMessage =
     \<lparr>msg_role = User, msg_content = [CHR '' '', CHR 0x0A, CHR 0x09], msg_toolCallId = None,
      msg_toolCalls = None\<rparr>"

definition persistRag :: RAGMemory where
  "persistRag =
     newRAGMemory (exampleConfig\<lparr>persistToStaticData := Some True\<rparr>) None (Some (Some ''wf''))"

definition persistedWorld :: "stored \<Rightarrow> World" where
  "persistedWorld v = exampleWorld\<lparr>ragStores := [], staticData := [(''rag_s1'', v)]\<rparr>"

definition blobWithoutMessages :: ParsedBlob where
  "blobWithoutMessages = \<lparr>pb_store = Some (export exampleStore), pb_messages = None\<rparr>"

definition blobOtherDimensions :: ParsedBlob where
  "blobOtherDimensions =
     \<lparr>pb_store = Some \<lparr>ex_dimensions = 5, ex_distance = Cosine, ex_documents = []\<rparr>,
      pb_messages = Some []\<rparr>"

definition blobBadVector :: ParsedBlob where
  "blobBadVector =
     \<lparr>pb_store = Some \<lparr>ex_dimensions = 3, ex_distance = Cosine, ex_documents = [docA]\<rparr>,
      pb_messages = Some [exampleMessage]\<rparr>"













section \<open>Properties of rounding\<close>

text \<open>
  Rounding to the nearest integer: integers are fixed, the error is at most one half,
  the function is monotone and odd.
\<close>

lemma roundHalfEven_int [simp]: "roundHalfEven (of_int n) = n"
  by (simp add: roundHalfEven_def)

lemma roundHalfEven_err: "\<bar>of_int (roundHalfEven m) - m\<bar> \<le> 1 / 2"
  unfolding roundHalfEven_def Let_def by (auto; linarith)

lemma roundHalfEven_bounds: "\<lfloor>m\<rfloor> \<le> roundHalfEven m \<and> roundHalfEven m \<le> \<lfloor>m\<rfloor> + 1"
  by (simp add: roundHalfEven_def Let_def)

lemma roundHalfEven_mono:
  assumes "m \<le> m'"
  shows "roundHalfEven m \<le> roundHalfEven m'"
proof (cases "\<lfloor>m\<rfloor> = \<lfloor>m'\<rfloor>")
  case True
  with assms show ?thesis by (auto simp: roundHalfEven_def Let_def)
next
  case False
  with assms have "\<lfloor>m\<rfloor> < \<lfloor>m'\<rfloor>" by (simp add: floor_mono order.strict_iff_order)
  then show ?thesis
    using roundHalfEven_bounds[of m] roundHalfEven_bounds[of m'] by linarith
qed

lemma roundHalfEven_neg: "roundHalfEven (- m) = - roundHalfEven m"
proof (cases "m \<in> \<int>")
  case True
  then obtain n where "m = of_int n" by (auto elim: Ints_cases)
  then show ?thesis by (simp flip: of_int_minus)
next
  case False
  then have "m \<noteq> of_int \<lfloor>m\<rfloor>" by (metis Ints_of_int)
  then have f: "\<lfloor>- m\<rfloor> = - \<lfloor>m\<rfloor> - 1"
    by (simp add: floor_minus ceiling_altdef)
  show ?thesis
    unfolding roundHalfEven_def Let_def f by auto
qed


lemma roundHalfEven_small:
  assumes "\<bar>m\<bar> \<le> 1 / 2"
  shows "roundHalfEven m = 0"
proof (cases "m < 0")
  case True
  with assms have "\<lfloor>m\<rfloor> = - 1" by (simp add: floor_eq_iff) 
  with assms True show ?thesis by (auto simp: roundHalfEven_def Let_def)
next
  case False
  with assms have "\<lfloor>m\<rfloor> = 0" by (simp add: floor_eq_iff)
  with assms False show ?thesis by (auto simp: roundHalfEven_def Let_def)
qed

text \<open>
  The binade of a number: \<open>2^(binade x) \<le> |x| < 2^(binade x + 1)\<close> for a normal \<open>x\<close>.
\<close>

lemma binade_ge: "- 1022 \<le> binade x"
  by (simp add: binade_def)

lemma floor_log2_bounds:
  assumes "x \<noteq> 0"
  shows "2 powi \<lfloor>log 2 \<bar>x\<bar>\<rfloor> \<le> \<bar>x\<bar>" and "\<bar>x\<bar> < 2 powi (\<lfloor>log 2 \<bar>x\<bar>\<rfloor> + 1)"
proof -
  from assms have "0 < \<bar>x\<bar>" by simp
  then have "(\<lfloor>log 2 \<bar>x\<bar>\<rfloor> = \<lfloor>log 2 \<bar>x\<bar>\<rfloor>) =
        (2 powr real_of_int \<lfloor>log 2 \<bar>x\<bar>\<rfloor> \<le> \<bar>x\<bar> \<and>
         \<bar>x\<bar> < 2 powr real_of_int (\<lfloor>log 2 \<bar>x\<bar>\<rfloor> + 1))"
    by (rule floor_log_eq_powr_iff) simp
  then have b: "2 powr real_of_int \<lfloor>log 2 \<bar>x\<bar>\<rfloor> \<le> \<bar>x\<bar> \<and>
         \<bar>x\<bar> < 2 powr real_of_int (\<lfloor>log 2 \<bar>x\<bar>\<rfloor> + 1)"
    by blast
  have p: "2 powr real_of_int k = 2 powi k" for k
    by (rule powr_real_of_int') simp_all
  from b show "2 powi \<lfloor>log 2 \<bar>x\<bar>\<rfloor> \<le> \<bar>x\<bar>" and "\<bar>x\<bar> < 2 powi (\<lfloor>log 2 \<bar>x\<bar>\<rfloor> + 1)"
    unfolding p by blast+
qed

lemma binade_upper:
  assumes "x \<noteq> 0"
  shows "\<bar>x\<bar> < 2 powi (binade x + 1)"
proof -
  have "\<bar>x\<bar> < 2 powi (\<lfloor>log 2 \<bar>x\<bar>\<rfloor> + 1)" using assms by (rule floor_log2_bounds)
  also have "\<dots> \<le> 2 powi (binade x + 1)"
    by (rule power_int_increasing) (simp_all add: binade_def)
  finally show ?thesis .
qed

lemma binade_lower:
  assumes "x \<noteq> 0" and "- 1022 < binade x"
  shows "2 powi binade x \<le> \<bar>x\<bar>"
proof -
  from assms(2) have "binade x = \<lfloor>log 2 \<bar>x\<bar>\<rfloor>" by (simp add: binade_def max_def split: if_splits)
  with floor_log2_bounds(1)[OF assms(1)] show ?thesis by simp
qed

lemma binade_mono:
  assumes "x \<noteq> 0" and "\<bar>x\<bar> \<le> \<bar>y\<bar>"
  shows "binade x \<le> binade y"
proof -
  from assms have "log 2 \<bar>x\<bar> \<le> log 2 \<bar>y\<bar>" by simp
  then have "\<lfloor>log 2 \<bar>x\<bar>\<rfloor> \<le> \<lfloor>log 2 \<bar>y\<bar>\<rfloor>" by (rule floor_mono)
  then show ?thesis unfolding binade_def by (intro max.mono) simp_all
qed

text \<open>
  \<open>fl\<close> is odd and monotone, fixes the integers below \<open>2^53\<close>, and is within half an
  \<open>ulp\<close> of its argument: within \<open>unitRoundoff * |x|\<close> for a normal \<open>x\<close>.
\<close>

lemma ulp_pos: "0 < ulp x"
  by (simp add: ulp_def)

lemma ulp_minus [simp]: "ulp (- x) = ulp x"
  by (simp add: ulp_def binade_def)

lemma fl_minus: "fl (- x) = - fl x"
  by (simp add: fl_def roundHalfEven_neg)

lemma fl_0 [simp]: "fl 0 = 0"
  by (simp add: fl_def roundHalfEven_def)

lemma fl_err: "\<bar>fl x - x\<bar> \<le> ulp x / 2"
proof -
  have "fl x - x = (of_int (roundHalfEven (x / ulp x)) - x / ulp x) * ulp x"
    using ulp_pos[of x] by (simp add: fl_def field_simps)
  then have "\<bar>fl x - x\<bar> = \<bar>of_int (roundHalfEven (x / ulp x)) - x / ulp x\<bar> * ulp x"
    using ulp_pos[of x] by (simp add: abs_mult)
  also have "\<dots> \<le> 1 / 2 * ulp x"
    using roundHalfEven_err[of "x / ulp x"] ulp_pos[of x] by (intro mult_right_mono) simp_all
  finally show ?thesis by simp
qed

lemma ulp_le:
  assumes "x \<noteq> 0"
  shows "ulp x \<le> max \<bar>x\<bar> (2 powi (- 1022)) / 2 ^ 52"
proof (cases "- 1022 < binade x")
  case True
  have "ulp x = 2 powi binade x / 2 ^ 52"
    by (simp add: ulp_def power_int_diff)
  also have "\<dots> \<le> \<bar>x\<bar> / 2 ^ 52"
    using binade_lower[OF assms True] by (simp add: divide_right_mono)
  also have "\<dots> \<le> max \<bar>x\<bar> (2 powi (- 1022)) / 2 ^ 52"
    by (simp add: divide_right_mono)
  finally show ?thesis .
next
  case False
  with binade_ge[of x] have "binade x = - 1022" by simp
  then have "ulp x = 2 powi (- 1022) / 2 ^ 52"
    by (simp add: ulp_def power_int_diff)
  also have "\<dots> \<le> max \<bar>x\<bar> (2 powi (- 1022)) / 2 ^ 52"
    by (simp add: divide_right_mono)
  finally show ?thesis .
qed

lemma fl_err_rel: "\<bar>fl x - x\<bar> \<le> unitRoundoff * max \<bar>x\<bar> minNormal"
proof (cases "x = 0")
  case True
  then show ?thesis by (simp add: unitRoundoff_def minNormal_def)
next
  case False
  from fl_err[of x] ulp_le[OF False] show ?thesis
    unfolding unitRoundoff_def minNormal_def by simp
qed

lemma unitRoundoff_bounds: "0 < unitRoundoff" "unitRoundoff \<le> 1 / 8"
  by (simp_all add: unitRoundoff_def)

lemma minNormal_bounds: "0 < minNormal" "minNormal \<le> 1 / 2"
proof -
  show "0 < minNormal" by (simp add: minNormal_def)
  have "(2::real) powi (- 1022) \<le> 2 powi (- 1)"
    by (rule power_int_increasing) simp_all
  then show "minNormal \<le> 1 / 2" by (simp add: minNormal_def)
qed

lemma fl_fix:
  assumes "x / ulp x \<in> \<int>"
  shows "fl x = x"
proof -
  from assms obtain n where n: "x / ulp x = of_int n" by (auto elim: Ints_cases)
  then have "x = of_int n * ulp x" using ulp_pos[of x] by (simp add: field_simps)
  with n show ?thesis by (simp add: fl_def)
qed

lemma fl_upper:
  assumes "0 < x"
  shows "fl x \<le> 2 powi (binade x + 1)"
proof -
  from assms have x: "x \<noteq> 0" by simp
  have "x / ulp x \<le> 2 powi (binade x + 1) / ulp x"
    using binade_upper[OF x] assms ulp_pos[of x] by (simp add: divide_right_mono)
  also have "2 powi (binade x + 1) / ulp x = of_int (2 ^ 53)"
    by (simp add: ulp_def flip: power_int_diff)
  finally have "roundHalfEven (x / ulp x) \<le> roundHalfEven (of_int (2 ^ 53))"
    by (rule roundHalfEven_mono)
  then have "roundHalfEven (x / ulp x) \<le> 2 ^ 53" by (simp only: roundHalfEven_int)
  then have "real_of_int (roundHalfEven (x / ulp x)) \<le> 2 ^ 53"
    by (metis of_int_le_iff of_int_numeral of_int_power)
  then have "fl x \<le> 2 ^ 53 * ulp x"
    unfolding fl_def using ulp_pos[of x] by (intro mult_right_mono) simp_all
  also have "2 ^ 53 * ulp x = 2 powi (binade x + 1)"
    by (simp add: ulp_def power_int_diff power_int_add)
  finally show ?thesis .
qed

lemma fl_lower:
  assumes "0 < x" and "- 1022 < binade x"
  shows "2 powi binade x \<le> fl x"
proof -
  from assms have x: "x \<noteq> 0" by simp
  have "2 powi binade x / ulp x \<le> x / ulp x"
    using binade_lower[OF x assms(2)] assms(1) ulp_pos[of x] by (simp add: divide_right_mono)
  moreover have "2 powi binade x / ulp x = of_int (2 ^ 52)"
    by (simp add: ulp_def flip: power_int_diff)
  ultimately have "roundHalfEven (of_int (2 ^ 52)) \<le> roundHalfEven (x / ulp x)"
    by (intro roundHalfEven_mono) simp
  then have "2 ^ 52 \<le> roundHalfEven (x / ulp x)" by (simp only: roundHalfEven_int)
  then have "2 ^ 52 \<le> real_of_int (roundHalfEven (x / ulp x))"
    by (metis of_int_le_iff of_int_numeral of_int_power)
  then have "2 ^ 52 * ulp x \<le> fl x"
    unfolding fl_def using ulp_pos[of x] by (intro mult_right_mono) simp_all
  moreover have "2 ^ 52 * ulp x = 2 powi binade x"
    by (simp add: ulp_def power_int_diff)
  ultimately show ?thesis by simp
qed

lemma fl_nonneg:
  assumes "0 \<le> x"
  shows "0 \<le> fl x"
proof -
  have "0 \<le> x / ulp x" using assms ulp_pos[of x] by simp
  then have "roundHalfEven 0 \<le> roundHalfEven (x / ulp x)" by (rule roundHalfEven_mono)
  then have "0 \<le> roundHalfEven (x / ulp x)" by (simp add: roundHalfEven_def)
  then show ?thesis unfolding fl_def using ulp_pos[of x] by simp
qed

lemma fl_mono_pos:
  assumes "0 < x" and "x \<le> y"
  shows "fl x \<le> fl y"
proof (cases "binade x = binade y")
  case True
  then have u: "ulp y = ulp x" by (simp add: ulp_def)
  have "x / ulp x \<le> y / ulp x" using assms ulp_pos[of x] by (simp add: divide_right_mono)
  then have "roundHalfEven (x / ulp x) \<le> roundHalfEven (y / ulp x)" by (rule roundHalfEven_mono)
  then show ?thesis unfolding fl_def u using ulp_pos[of x] by (simp add: mult_right_mono)
next
  case False
  from assms have "binade x \<le> binade y" by (intro binade_mono) simp_all
  with False have lt: "binade x < binade y" by simp
  with binade_ge[of x] have n: "- 1022 < binade y" by simp
  have "fl x \<le> 2 powi (binade x + 1)" using assms(1) by (rule fl_upper)
  also have "\<dots> \<le> 2 powi binade y" using lt by (intro power_int_increasing) simp_all
  also have "\<dots> \<le> fl y" using assms n by (intro fl_lower) simp_all
  finally show ?thesis .
qed

lemma fl_mono:
  assumes "x \<le> y"
  shows "fl x \<le> fl y"
proof -
  consider "0 < x" | "x \<le> 0" "0 \<le> y" | "y < 0" by linarith
  then show ?thesis
  proof cases
    case 1
    then show ?thesis using assms by (rule fl_mono_pos)
  next
    case 2
    then have "0 \<le> fl y" "0 \<le> fl (- x)" by (simp_all add: fl_nonneg)
    then show ?thesis by (simp add: fl_minus)
  next
    case 3
    with assms have "fl (- y) \<le> fl (- x)" by (intro fl_mono_pos) simp_all
    then show ?thesis by (simp add: fl_minus)
  qed
qed

lemma fl_of_int:
  assumes "\<bar>n\<bar> < 2 ^ 53"
  shows "fl (of_int n) = of_int n"
proof (cases "n = 0")
  case True
  then show ?thesis by simp
next
  case False
  let ?x = "real_of_int n"
  let ?e = "\<lfloor>log 2 \<bar>?x\<bar>\<rfloor>"
  have x: "?x \<noteq> 0" using False by simp
  from False have "1 \<le> \<bar>n\<bar>" by simp
  then have "real_of_int 1 \<le> real_of_int \<bar>n\<bar>" by (simp only: of_int_le_iff)
  then have "1 \<le> \<bar>?x\<bar>" by simp
  then have "0 \<le> log 2 \<bar>?x\<bar>" by simp
  then have e0: "0 \<le> ?e" by simp
  then have b: "binade ?x = ?e" by (simp add: binade_def)
  from assms have "real_of_int \<bar>n\<bar> < real_of_int (2 ^ 53)" by (simp only: of_int_less_iff)
  then have "\<bar>?x\<bar> < 2 powi 53" by simp
  with floor_log2_bounds(1)[OF x] have "(2::real) powi ?e < 2 powi 53" by simp
  then have "?e < 53" by (rule power_int_le_imp_less_exp[rotated]) simp_all
  then have "52 - ?e = int (nat (52 - ?e))" by simp
  then have "(2::real) powi (52 - ?e) = 2 ^ nat (52 - ?e)"
    by (metis power_int_of_nat)
  moreover have "?x / ulp ?x = ?x * 2 powi (52 - ?e)"
    by (simp add: ulp_def b power_int_diff)
  ultimately have "?x / ulp ?x = of_int (n * 2 ^ nat (52 - ?e))" by simp
  then have "?x / ulp ?x \<in> \<int>" by (simp only: Ints_of_int)
  then show ?thesis by (rule fl_fix)
qed

lemma fl_1 [simp]: "fl 1 = 1"
  using fl_of_int[of 1] by simp

lemma fl_numeral [simp]: "numeral k < (2 ^ 53 :: int) \<Longrightarrow> fl (numeral k) = numeral k"
  using fl_of_int[of "numeral k"] by simp

lemma fl_neg_numeral [simp]:
  "numeral k < (2 ^ 53 :: int) \<Longrightarrow> fl (- numeral k) = - numeral k"
  by (simp add: fl_minus)

lemma fl_neg_1 [simp]: "fl (- 1) = - 1"
  by (simp add: fl_minus)

lemma fl_underflow:
  assumes "\<bar>x\<bar> \<le> 2 powi (- 1075)"
  shows "fl x = 0"
proof (cases "x = 0")
  case True
  then show ?thesis by simp
next
  case False
  have "\<bar>x\<bar> < 2 powi (- 1022)"
    using assms power_int_strict_increasing[of "- 1075" "- 1022" "2::real"] by simp
  with floor_log2_bounds(1)[OF False]
  have lt: "(2::real) powi \<lfloor>log 2 \<bar>x\<bar>\<rfloor> < 2 powi (- 1022)" by simp
  have "\<not> - 1022 \<le> \<lfloor>log 2 \<bar>x\<bar>\<rfloor>"
  proof
    assume "- 1022 \<le> \<lfloor>log 2 \<bar>x\<bar>\<rfloor>"
    then have "(2::real) powi (- 1022) \<le> 2 powi \<lfloor>log 2 \<bar>x\<bar>\<rfloor>"
      by (rule power_int_increasing) simp
    with lt show False by simp
  qed
  then have b: "binade x = - 1022" by (simp add: binade_def)
  then have u: "ulp x = 2 powi (- 1074)" by (simp add: ulp_def)
  have "\<bar>x / ulp x\<bar> \<le> 2 powi (- 1075) / 2 powi (- 1074)"
    unfolding u abs_divide using assms by (simp add: divide_right_mono)
  also have "\<dots> = 1 / 2" by (simp flip: power_int_diff)
  finally have "\<bar>x / ulp x\<bar> \<le> 1 / 2" .
  then have "roundHalfEven (x / ulp x) = 0" by (rule roundHalfEven_small)
  then show ?thesis by (simp add: fl_def)
qed

lemma fl_le_1: "x \<le> 1 \<Longrightarrow> fl x \<le> 1"
  using fl_mono[of x 1] by simp

text \<open>
  Every double is a multiple of \<open>minSubnormal\<close>, so two doubles less than
  \<open>minSubnormal\<close> apart are equal.
\<close>

lemma minSubnormal_pos: "0 < minSubnormal"
  by (simp add: minSubnormal_def)

lemma half_minSubnormal: "unitRoundoff * minNormal = minSubnormal / 2"
proof -
  have "(2::real) powi (- 1022) = 2 powi (- 1074) * 2 powi 52"
    by (simp flip: power_int_add)
  then show ?thesis by (simp add: unitRoundoff_def minNormal_def minSubnormal_def)
qed

lemma minNormal_square: "minNormal * minNormal \<le> minSubnormal"
proof -
  have "minNormal * minNormal = 2 powi (- 2044)"
    by (simp add: minNormal_def flip: power_int_add)
  also have "\<dots> \<le> 2 powi (- 1074)" by (rule power_int_increasing) simp_all
  finally show ?thesis by (simp add: minSubnormal_def)
qed

lemma fl_grid: "\<exists>n::int. fl x = of_int n * minSubnormal"
proof -
  have "0 \<le> binade x + 1022" using binade_ge[of x] by simp
  then have "binade x + 1022 = int (nat (binade x + 1022))" by simp
  then have "(2::real) powi (binade x + 1022) = 2 ^ nat (binade x + 1022)"
    by (metis power_int_of_nat)
  moreover have "(2::real) powi ((binade x + 1022) + (- 1074)) =
      2 powi (binade x + 1022) * 2 powi (- 1074)"
    by (rule power_int_add) simp
  then have "ulp x = 2 powi (binade x + 1022) * 2 powi (- 1074)"
    by (simp add: ulp_def)
  ultimately have "fl x =
      of_int (roundHalfEven (x / ulp x) * 2 ^ nat (binade x + 1022)) * minSubnormal"
    by (simp add: fl_def minSubnormal_def)
  then show ?thesis by blast
qed

text \<open>
  The quotient \<open>S / (r * r)\<close> computed for \<open>r = sqrt S\<close> and a double \<open>S > 0\<close>: the
  denominator is within \<open>6 * unitRoundoff * S\<close> of \<open>S\<close> (it is \<open>S\<close> itself when \<open>S\<close> is so
  small that the product is rounded to a subnormal), and the quotient is within
  \<open>7 * unitRoundoff\<close> of 1.
\<close>

lemma fl_between:
  assumes "minNormal \<le> x"
  shows "x * (1 - unitRoundoff) \<le> fl x \<and> fl x \<le> x * (1 + unitRoundoff)"
proof -
  from assms minNormal_bounds(1) have "0 < x" by linarith
  with assms have "max \<bar>x\<bar> minNormal = x" by simp
  with fl_err_rel[of x] have "\<bar>fl x - x\<bar> \<le> unitRoundoff * x" by simp
  then show ?thesis by (simp add: abs_le_iff algebra_simps)
qed

lemma grid_close:
  assumes "a = of_int m * minSubnormal" and "b = of_int n * minSubnormal"
    and "\<bar>a - b\<bar> < minSubnormal"
  shows "a = b"
proof -
  have "a - b = of_int (m - n) * minSubnormal" using assms(1,2) by (simp add: algebra_simps)
  then have "\<bar>a - b\<bar> = \<bar>real_of_int (m - n)\<bar> * minSubnormal"
    using minSubnormal_pos by (simp add: abs_mult)
  with assms(3) have "\<bar>real_of_int (m - n)\<bar> * minSubnormal < 1 * minSubnormal" by simp
  then have "\<bar>real_of_int (m - n)\<bar> < 1" using minSubnormal_pos by (simp only: mult_less_cancel_right_pos)
  then have "m - n = 0" by linarith
  with assms(1,2) show ?thesis by simp
qed

lemma self_denominator:
  assumes g: "\<exists>n::int. S = of_int n * minSubnormal" and pos: "0 < S"
  shows "\<bar>fl (fl (sqrt S) * fl (sqrt S)) - S\<bar> \<le> 6 * unitRoundoff * S"
proof -
  define u where "u = unitRoundoff"
  define r where "r = fl (sqrt S)"
  define d where "d = fl (r * r)"
  note rb = fl_between[folded u_def]
  have u: "0 < u" "u \<le> 1 / 8" using unitRoundoff_bounds by (simp_all add: u_def)
  note e = minNormal_bounds
  from g obtain n :: int where n: "S = of_int n * minSubnormal" by blast
  with pos minSubnormal_pos have "0 < real_of_int n" by (simp add: zero_less_mult_iff)
  then have "1 \<le> real_of_int n" by simp
  then have "1 * minSubnormal \<le> real_of_int n * minSubnormal"
    using minSubnormal_pos by (intro mult_right_mono) simp_all
  with n have Sg: "minSubnormal \<le> S" by simp
  have sq: "sqrt S * sqrt S = S" using pos by simp
  from Sg minNormal_square have "minNormal * minNormal \<le> S" by linarith
  then have "sqrt (minNormal * minNormal) \<le> sqrt S" by (simp only: real_sqrt_le_iff)
  then have rt: "minNormal \<le> sqrt S" using e(1) by simp
  from rb[OF rt] have r: "sqrt S * (1 - u) \<le> r" "r \<le> sqrt S * (1 + u)"
    by (simp_all add: r_def)
  have rt0: "0 < sqrt S" using pos by simp
  have lo0: "0 \<le> sqrt S * (1 - u)" using rt0 u by simp
  have "(sqrt S * (1 - u)) * (sqrt S * (1 - u)) \<le> r * r"
    using r(1) lo0 by (intro mult_mono) simp_all
  moreover have "(sqrt S * (1 - u)) * (sqrt S * (1 - u)) = S * ((1 - u) * (1 - u))"
    using sq by (simp add: algebra_simps)
  ultimately have p_lo: "S * ((1 - u) * (1 - u)) \<le> r * r" by simp
  have r0: "0 \<le> r" using lo0 r(1) by linarith
  have "r * r \<le> (sqrt S * (1 + u)) * (sqrt S * (1 + u))"
    using r(2) r0 by (intro mult_mono) simp_all
  moreover have "(sqrt S * (1 + u)) * (sqrt S * (1 + u)) = S * ((1 + u) * (1 + u))"
    using sq by (simp add: algebra_simps)
  ultimately have p_hi: "r * r \<le> S * ((1 + u) * (1 + u))" by simp
  have "(1 + u) * (1 + u) = 1 + 2 * u + u * u" by (simp add: algebra_simps)
  also have "\<dots> \<le> 1 + 2 * u + u * 1" using u by (intro add_left_mono mult_left_mono) simp_all
  finally have c_hi: "(1 + u) * (1 + u) \<le> 1 + 3 * u" by simp
  have "(1 - u) * (1 - u) = 1 - 2 * u + u * u" by (simp add: algebra_simps)
  then have c_lo: "1 - 3 * u \<le> (1 - u) * (1 - u)" using u by simp
  define v where "v = u * S"
  have v0: "0 \<le> v" using u pos by (simp add: v_def)
  have "S * (1 - 3 * u) \<le> S * ((1 - u) * (1 - u))"
    using c_lo pos by (intro mult_left_mono) simp_all
  with p_lo have pl: "S - 3 * v \<le> r * r" by (simp add: algebra_simps v_def)
  have "S * ((1 + u) * (1 + u)) \<le> S * (1 + 3 * u)"
    using c_hi pos by (intro mult_left_mono) simp_all
  with p_hi have ph: "r * r \<le> S + 3 * v" by (simp add: algebra_simps v_def)
  have p0: "0 \<le> r * r" using r0 by simp
  have err: "\<bar>d - r * r\<bar> \<le> u * max (r * r) minNormal"
    using fl_err_rel[of "r * r", folded u_def] p0 by (simp add: d_def)
  have "\<bar>d - S\<bar> \<le> 6 * v"
  proof (cases "minNormal \<le> r * r")
    case True
    then have "\<bar>d - r * r\<bar> \<le> u * (r * r)" using err by (simp add: max_def)
    also have "\<dots> \<le> u * (S + 3 * v)" using ph u by (intro mult_left_mono) simp_all
    also have "\<dots> = v + 3 * (u * v)" by (simp add: algebra_simps v_def)
    also have "u * v \<le> 1 / 8 * v" using u v0 by (intro mult_right_mono) simp_all
    finally have "\<bar>d - r * r\<bar> \<le> 2 * v" using v0 by simp
    with pl ph show ?thesis by (simp add: abs_le_iff)
  next
    case False
    then have "\<bar>d - r * r\<bar> \<le> u * minNormal" using err by (simp add: max_def)
    then have half: "\<bar>d - r * r\<bar> \<le> minSubnormal / 2"
      using half_minSubnormal by (simp add: u_def)
    show ?thesis
    proof (cases "3 * v < minSubnormal / 2")
      case True
      with half pl ph have "\<bar>d - S\<bar> < minSubnormal" by linarith
      moreover obtain m :: int where "d = of_int m * minSubnormal"
        using fl_grid[of "r * r"] by (auto simp: d_def)
      ultimately have "d = S" using n by (intro grid_close[of d m S n]) simp_all
      with v0 show ?thesis by simp
    next
      case False
      with half pl ph show ?thesis by linarith
    qed
  qed
  then show ?thesis by (simp add: d_def r_def u_def v_def)
qed

lemma self_quotient:
  assumes g: "\<exists>n::int. S = of_int n * minSubnormal" and pos: "0 < S"
  shows "fl (fl (sqrt S) * fl (sqrt S)) \<noteq> 0 \<and>
         1 - 7 * unitRoundoff \<le> fl (S / fl (fl (sqrt S) * fl (sqrt S)))"
proof -
  define u where "u = unitRoundoff"
  define d where "d = fl (fl (sqrt S) * fl (sqrt S))"
  note rb = fl_between[folded u_def]
  have u: "0 < u" "u \<le> 1 / 8" using unitRoundoff_bounds by (simp_all add: u_def)
  note e = minNormal_bounds
  define v where "v = u * S"
  from self_denominator[OF assms] have dS: "\<bar>d - S\<bar> \<le> 6 * v"
    by (simp add: d_def u_def v_def)
  have "v \<le> 1 / 8 * S" unfolding v_def using u pos by (intro mult_right_mono) simp_all
  with dS have "S / 4 \<le> d" by (simp add: abs_le_iff)
  with pos have d0: "0 < d" by linarith
  from dS have d_hi: "d \<le> S * (1 + 6 * u)" by (simp add: abs_le_iff algebra_simps v_def)
  have c0: "0 < 1 + 6 * u" using u by simp
  have "S / (S * (1 + 6 * u)) \<le> S / d"
    using d_hi d0 pos c0 by (intro divide_left_mono) simp_all
  then have t_lo: "1 / (1 + 6 * u) \<le> S / d" using pos by simp
  have "1 + 6 * u \<le> 2" using u by simp
  then have "1 / 2 \<le> 1 / (1 + 6 * u)" using c0 by (intro divide_left_mono) simp_all
  with t_lo e(2) have "minNormal \<le> S / d" by linarith
  from rb[OF this] have q: "S / d * (1 - u) \<le> fl (S / d)" by simp
  have "(1 - 7 * u) * (1 + 6 * u) = 1 - u - 42 * u * u" by (simp add: algebra_simps)
  then have "(1 - 7 * u) * (1 + 6 * u) \<le> 1 - u" using u by simp
  then have "1 - 7 * u \<le> (1 - u) / (1 + 6 * u)" using c0 by (simp add: pos_le_divide_eq)
  also have "\<dots> = 1 / (1 + 6 * u) * (1 - u)" by simp
  also have "\<dots> \<le> S / d * (1 - u)" using t_lo u by (intro mult_right_mono) simp_all
  finally have "1 - 7 * u \<le> fl (S / d)" using q by linarith
  moreover have "d \<noteq> 0" using d0 by simp
  ultimately show ?thesis by (simp add: d_def u_def)
qed

section \<open>Properties of the vector store\<close>

subsection \<open>Arithmetic of the loops\<close>

lemma cosineLoop_same:
  "cosineLoop na nb a a (d, x, y) =
     (normLoop a d, if na then normLoop a x else x, if nb then normLoop a y else y)"
  by (induction a arbitrary: d x y) auto

lemma cosineDistance_self:
  assumes "na = None \<or> na = Some (computeNorm a)"
    and "nb = None \<or> nb = Some (computeNorm a)"
  shows "cosineDistance a a na nb =
     (let S = normLoop a 0; r = fl (sqrt S); denom = fl (r * r)
      in if denom = 0 then 1 else fl (1 - max (- 1) (min 1 (fl (S / denom)))))"
  using assms by (auto simp: cosineDistance_def cosineLoop_same computeNorm_def Let_def)

lemma normLoop_zeros: "list_all (\<lambda>x. x = 0) a \<Longrightarrow> normLoop a 0 = 0"
  by (induction a) simp_all

lemma cosine_self_zero:
  assumes "na = None \<or> na = Some (computeNorm a)"
    and "nb = None \<or> nb = Some (computeNorm a)"
    and "normLoop a 0 = 0"
  shows "cosineDistance a a na nb = 1 \<and> similarityOf Cosine (cosineDistance a a na nb) = 0"
  using assms(3) by (simp add: cosineDistance_self[OF assms(1,2)] Let_def similarityOf_def)

lemma normLoop_underflow:
  "list_all (\<lambda>x. \<bar>x\<bar> \<le> 2 powi (- 538)) a \<Longrightarrow> normLoop a 0 = 0"
proof (induction a)
  case Nil
  then show ?case by simp
next
  case (Cons x a)
  then have x: "\<bar>x\<bar> \<le> 2 powi (- 538)" by simp
  then have "\<bar>x\<bar> * \<bar>x\<bar> \<le> 2 powi (- 538) * 2 powi (- 538)"
    by (intro mult_mono) simp_all
  also have "\<dots> = 2 powi (- 1076)" by (simp flip: power_int_add)
  also have "\<dots> \<le> 2 powi (- 1075)" by (rule power_int_increasing) simp_all
  finally have "\<bar>x * x\<bar> \<le> 2 powi (- 1075)" by (simp add: abs_mult)
  then have "fl (x * x) = 0" by (rule fl_underflow)
  with Cons show ?case by simp
qed

lemma cosine_self_underflow:
  assumes "na = None \<or> na = Some (computeNorm a)"
    and "nb = None \<or> nb = Some (computeNorm a)"
    and "list_all (\<lambda>x. \<bar>x\<bar> \<le> 2 powi (- 538)) a"
  shows "cosineDistance a a na nb = 1 \<and> similarityOf Cosine (cosineDistance a a na nb) = 0"
  using assms(1,2) normLoop_underflow[OF assms(3)] by (rule cosine_self_zero)

lemma normLoop_grid:
  "\<exists>n::int. acc = of_int n * minSubnormal \<Longrightarrow>
   \<exists>n::int. normLoop a acc = of_int n * minSubnormal"
  by (induction a arbitrary: acc) (simp_all add: fl_grid)

lemma normLoop_grid0: "\<exists>n::int. normLoop a 0 = of_int n * minSubnormal"
  by (rule normLoop_grid) (rule exI[of _ 0], simp)

lemma normLoop_nonneg: "0 \<le> acc \<Longrightarrow> 0 \<le> normLoop a acc"
  by (induction a arbitrary: acc) (simp_all add: fl_nonneg)

lemma cosine_self_bounds:
  assumes "na = None \<or> na = Some (computeNorm a)"
    and "nb = None \<or> nb = Some (computeNorm a)"
    and "normLoop a 0 \<noteq> 0"
  shows "0 \<le> cosineDistance a a na nb \<and> cosineDistance a a na nb \<le> 8 * unitRoundoff \<and>
         1 - 9 * unitRoundoff \<le> similarityOf Cosine (cosineDistance a a na nb) \<and>
         similarityOf Cosine (cosineDistance a a na nb) \<le> 1"
proof -
  define u where "u = unitRoundoff"
  define S where "S = normLoop a 0"
  define q where "q = fl (S / fl (fl (sqrt S) * fl (sqrt S)))"
  define w where "w = 1 - max (- 1) (min 1 q)"
  have u: "0 < u" "u \<le> 1 / 8" using unitRoundoff_bounds by (simp_all add: u_def)
  note e = minNormal_bounds
  have "0 \<le> S" unfolding S_def by (rule normLoop_nonneg) simp
  with assms(3) have pos: "0 < S" by (simp add: S_def)
  have g: "\<exists>n::int. S = of_int n * minSubnormal" unfolding S_def by (rule normLoop_grid0)
  from self_quotient[OF g pos]
  have ne: "fl (fl (sqrt S) * fl (sqrt S)) \<noteq> 0" and ql: "1 - 7 * u \<le> q"
    by (simp_all add: q_def u_def)
  have dist: "cosineDistance a a na nb = fl w"
    using ne by (simp add: cosineDistance_self[OF assms(1,2)] Let_def w_def q_def S_def)
  have w: "0 \<le> w" "w \<le> 7 * u" using ql u by (auto simp: w_def)
  have d0: "0 \<le> fl w" using w(1) by (rule fl_nonneg)
  have "max \<bar>w\<bar> minNormal \<le> 1" using w u e by simp
  then have "u * max \<bar>w\<bar> minNormal \<le> u * 1" using u by (intro mult_left_mono) simp_all
  with fl_err_rel[of w, folded u_def] have "\<bar>fl w - w\<bar> \<le> u" using u by linarith
  with w have d8: "fl w \<le> 8 * u" by linarith
  have s1: "fl (1 - fl w) \<le> 1" using d0 by (intro fl_le_1) simp
  have "\<bar>1 - fl w\<bar> \<le> 1" using d0 d8 u by simp
  then have "max \<bar>1 - fl w\<bar> minNormal \<le> 1" using e by simp
  then have "u * max \<bar>1 - fl w\<bar> minNormal \<le> u * 1" using u by (intro mult_left_mono) simp_all
  with fl_err_rel[of "1 - fl w", folded u_def]
  have "\<bar>fl (1 - fl w) - (1 - fl w)\<bar> \<le> u" by linarith
  with d8 have s9: "1 - 9 * u \<le> fl (1 - fl w)" by linarith
  show ?thesis using d0 d8 s1 s9 by (simp add: dist similarityOf_def u_def)
qed

lemma euclideanLoop_nonneg: "0 \<le> acc \<Longrightarrow> 0 \<le> euclideanLoop a b acc"
  by (induction a b acc rule: euclideanLoop.induct) (auto simp: fl_nonneg)

lemma euclideanDistance_nonneg: "0 \<le> euclideanDistance a b"
  by (simp add: euclideanDistance_def euclideanLoop_nonneg fl_nonneg)

lemma similarityOf_antimono:
  assumes "d1 \<le> d2" and "m = Euclidean \<longrightarrow> 0 \<le> d1"
  shows "similarityOf m d2 \<le> similarityOf m d1"
proof (cases m)
  case Euclidean
  with assms have "1 \<le> 1 + d1" "1 + d1 \<le> 1 + d2" by auto
  then have "fl 1 \<le> fl (1 + d1)" "fl (1 + d1) \<le> fl (1 + d2)"
    by (simp_all only: fl_mono)
  then have "0 < fl (1 + d1)" "fl (1 + d1) \<le> fl (1 + d2)" by simp_all
  then have "1 / fl (1 + d2) \<le> 1 / fl (1 + d1)" by (simp add: frac_le)
  then have "fl (1 / fl (1 + d2)) \<le> fl (1 / fl (1 + d1))" by (rule fl_mono)
  with Euclidean show ?thesis by (simp add: similarityOf_def)
next
  case Cosine
  from assms(1) have "fl (1 - d2) \<le> fl (1 - d1)" by (intro fl_mono) simp
  with Cosine show ?thesis by (simp add: similarityOf_def)
qed (use assms in \<open>simp_all add: similarityOf_def\<close>)

subsection \<open>The map of documents\<close>

lemma update_fresh: "k \<notin> fst ` set al \<Longrightarrow> AList.update k v al = al @ [(k, v)]"
  by (induction al) auto

lemma length_update_present:
  "k \<in> fst ` set al \<Longrightarrow> length (AList.update k v al) = length al"
  by (induction al) auto

lemma set_update_subset: "set (AList.update k v al) \<subseteq> insert (k, v) (set al)"
  by (induction al) auto

lemma set_delete_subset: "set (AList.delete k al) \<subseteq> set al"
  by (induction al) auto

lemma add_rejects:
  "length (vd_vector doc) \<noteq> dimensions s \<Longrightarrow>
   add doc s = (Inl (DimensionMismatch (dimensions s) (length (vd_vector doc))), s)"
  by (simp add: add_def)

lemma add_accepts:
  "length (vd_vector doc) = dimensions s \<Longrightarrow>
   fst (add doc s) = Inr () \<and>
   documents (snd (add doc s)) = AList.update (vd_id doc)
      \<lparr>sd_id = vd_id doc, sd_content = vd_content doc, sd_vector = vd_vector doc,
       sd_metadata = vd_metadata doc,
       sd_norm = (if distance s = Cosine then Some (computeNorm (vd_vector doc)) else None)\<rparr>
      (documents s) \<and>
   dimensions (snd (add doc s)) = dimensions s \<and>
   distance (snd (add doc s)) = distance s"
  by (simp add: add_def Let_def split: option.splits)

lemma remove_fields:
  "documents (snd (remove i s)) = AList.delete i (documents s) \<and>
   dimensions (snd (remove i s)) = dimensions s \<and>
   distance (snd (remove i s)) = distance s"
  by (simp add: remove_def Let_def split: option.splits)

subsection \<open>The invariant of the store\<close>

lemma store_inv_new: "store_inv (newVectorStore dims metric)"
  by (simp add: store_inv_def newVectorStore_def)

lemma store_inv_add:
  assumes inv: "store_inv s"
  shows "store_inv (snd (add doc s))"
proof (cases "length (vd_vector doc) = dimensions s")
  case False
  with inv show ?thesis by (simp add: add_rejects)
next
  case True
  note a = add_accepts[OF True]
  let ?d = "\<lparr>sd_id = vd_id doc, sd_content = vd_content doc, sd_vector = vd_vector doc,
       sd_metadata = vd_metadata doc,
       sd_norm = (if distance s = Cosine then Some (computeNorm (vd_vector doc)) else None)\<rparr>"
  show ?thesis
    unfolding store_inv_def
  proof (intro conjI ballI)
    show "distinct (map fst (documents (snd (add doc s))))"
      using inv a by (simp add: store_inv_def distinct_update)
  next
    fix p assume "p \<in> set (documents (snd (add doc s)))"
    then have "p \<in> insert (vd_id doc, ?d) (set (documents s))"
      using a set_update_subset by fastforce
    then show "case p of (key, d) \<Rightarrow> sd_id d = key \<and>
        length (sd_vector d) = dimensions (snd (add doc s)) \<and>
        sd_norm d = (if distance (snd (add doc s)) = Cosine
                     then Some (computeNorm (sd_vector d)) else None)"
      using inv a True by (auto simp: store_inv_def)
  qed
qed

lemma store_inv_remove:
  assumes "store_inv s"
  shows "store_inv (snd (remove i s))"
proof -
  have sub: "set (AList.delete i (documents s)) \<subseteq> set (documents s)"
    by (rule set_delete_subset)
  have "distinct (map fst (AList.delete i (documents s)))"
    using assms by (simp add: store_inv_def distinct_delete)
  moreover have "\<forall>(key, doc) \<in> set (AList.delete i (documents s)).
        sd_id doc = key \<and> length (sd_vector doc) = dimensions s \<and>
        sd_norm doc = (if distance s = Cosine then Some (computeNorm (sd_vector doc)) else None)"
    using assms sub unfolding store_inv_def by blast
  ultimately show ?thesis
    unfolding store_inv_def by (simp only: remove_fields)
qed

lemma store_inv_clear: "store_inv s \<Longrightarrow> store_inv (clear_store s)"
  by (auto simp: store_inv_def clear_store_def Let_def split: option.splits)

lemma store_inv_configure: "store_inv s \<Longrightarrow> store_inv (configureBM25 tf s)"
  by (auto simp: store_inv_def configureBM25_def)

lemma reachable_inv: "reachable s \<Longrightarrow> store_inv s"
  by (induction rule: reachable.induct)
     (simp_all add: store_inv_new store_inv_add store_inv_remove store_inv_clear
        store_inv_configure)

lemma reachable_exampleStore: "reachable exampleStore"
  unfolding exampleStore_def by (intro reachable.intros)

subsection \<open>Search\<close>

lemma length_slice0_le: "length (slice0 e xs) \<le> length xs"
  by (simp add: slice0_def Let_def)

lemma length_slice0_bound: "0 \<le> e \<Longrightarrow> int (length (slice0 e xs)) \<le> e"
  by (simp add: slice0_def Let_def)

lemma sorted_wrt_slice0: "sorted_wrt P xs \<Longrightarrow> sorted_wrt P (slice0 e xs)"
  by (simp add: slice0_def Let_def)

lemma set_slice0: "set (slice0 e xs) \<subseteq> set xs"
  by (simp add: slice0_def Let_def set_take_subset)

lemma scoreDocument_Some:
  assumes "scoreDocument s q qn m doc = Some r"
  shows "sr_similarity r = similarityOf (distance s) (sr_distance r) \<and>
         (distance s = Euclidean \<longrightarrow> 0 \<le> sr_distance r) \<and>
         m \<le> sr_similarity r \<and> sr_id r = sd_id doc"
  using assms euclideanDistance_nonneg
  by (auto simp: scoreDocument_def Let_def calculateDistance_def split: if_splits)

lemma length_map_filter_le: "length (List.map_filter f xs) \<le> length xs"
  by (simp add: List.map_filter_def)

lemma set_map_filter: "set (List.map_filter f xs) = {y. \<exists>x \<in> set xs. f x = Some y}"
  by (induction xs) (auto split: option.splits)

lemma search_results:
  assumes "length q = dimensions s"
  shows "\<exists>rs. search q k m s = Inr rs \<and>
           length rs \<le> size_store s \<and>
           (0 \<le> k \<longrightarrow> int (length rs) \<le> min k (int (size_store s))) \<and>
           sorted_wrt (\<lambda>a b. sr_distance a \<le> sr_distance b) rs \<and>
           sorted_wrt (\<lambda>a b. sr_similarity b \<le> sr_similarity a) rs"
proof (cases "size_store s = 0")
  case True
  with assms show ?thesis by (simp add: search_def)
next
  case False
  define qn where "qn = (if distance s = Cosine then Some (computeNorm q) else None)"
  define results where "results = List.map_filter
                        (\<lambda>(key, doc). scoreDocument s q qn m doc) (documents s)"
  define results' where "results' = sort_key sr_distance results"
  define rs where "rs = slice0 (min k (int (length results'))) results'"
  have eq: "search q k m s = Inr rs"
    using assms False by (simp add: search_def Let_def rs_def results'_def results_def qn_def)
  have len': "length results' \<le> size_store s"
    by (simp add: results'_def results_def size_store_def length_map_filter_le)
  have len: "length rs \<le> size_store s"
    using len' length_slice0_le[of "min k (int (length results'))" results']
    by (simp add: rs_def)
  have bound: "int (length rs) \<le> min k (int (size_store s))" if "0 \<le> k"
  proof -
    from that have "0 \<le> min k (int (length results'))" by simp
    then have "int (length rs) \<le> min k (int (length results'))"
      unfolding rs_def by (rule length_slice0_bound)
    with len' show ?thesis by simp
  qed
  have "sorted (map sr_distance results')"
    by (simp add: results'_def)
  then have "sorted_wrt (\<lambda>a b. sr_distance a \<le> sr_distance b) results'"
    by (simp add: sorted_map)
  then have sd: "sorted_wrt (\<lambda>a b. sr_distance a \<le> sr_distance b) rs"
    unfolding rs_def by (rule sorted_wrt_slice0)
  have props: "sr_similarity r = similarityOf (distance s) (sr_distance r) \<and>
         (distance s = Euclidean \<longrightarrow> 0 \<le> sr_distance r)" if "r \<in> set rs" for r
  proof -
    from that have "r \<in> set results"
      using set_slice0 by (fastforce simp: rs_def results'_def)
    then obtain doc where "scoreDocument s q qn m doc = Some r"
      by (auto simp: results_def set_map_filter)
    then show ?thesis using scoreDocument_Some by blast
  qed
  have ss: "sorted_wrt (\<lambda>a b. sr_similarity b \<le> sr_similarity a) rs"
    using sd
  proof (rule sorted_wrt_mono_rel[rotated])
    fix a b assume "a \<in> set rs" "b \<in> set rs" "sr_distance a \<le> sr_distance b"
    then show "sr_similarity b \<le> sr_similarity a"
      using props[of a] props[of b]
        similarityOf_antimono[of "sr_distance a" "sr_distance b" "distance s"]
      by simp
  qed
  show ?thesis using eq len bound sd ss by blast
qed

lemmas example_defs =
  exampleStore_def docA_def docB_def add_def newVectorStore_def computeNorm_def Let_def
  search_def size_store_def List.map_filter_def scoreDocument_def calculateDistance_def
  cosineDistance_def similarityOf_def slice0_def get_def

subsection \<open>Import after export\<close>

lemma addMany_restore:
  assumes "bm25Index t = None"
    and "distinct (map fst (documents t @ ds))"
    and "\<forall>(key, doc) \<in> set ds. sd_id doc = key \<and> length (sd_vector doc) = dimensions t \<and>
        sd_norm doc = (if distance t = Cosine then Some (computeNorm (sd_vector doc)) else None)"
  shows "addMany (map (\<lambda>(key, doc). \<lparr>vd_id = sd_id doc, vd_content = sd_content doc,
           vd_vector = sd_vector doc, vd_metadata = sd_metadata doc\<rparr>) ds) t
         = (Inr (), t\<lparr>documents := documents t @ ds\<rparr>)"
  using assms
proof (induction ds arbitrary: t)
  case Nil
  then show ?case by simp
next
  case (Cons p ds)
  obtain key doc where p: "p = (key, doc)" by (cases p)
  from Cons.prems(3) p have d: "sd_id doc = key" "length (sd_vector doc) = dimensions t"
    "sd_norm doc = (if distance t = Cosine then Some (computeNorm (sd_vector doc)) else None)"
    by auto
  from Cons.prems(2) p have fresh: "key \<notin> fst ` set (documents t)" by auto
  let ?vd = "\<lparr>vd_id = sd_id doc, vd_content = sd_content doc,
           vd_vector = sd_vector doc, vd_metadata = sd_metadata doc\<rparr>"
  let ?t' = "t\<lparr>documents := documents t @ [(key, doc)]\<rparr>"
  have step: "add ?vd t = (Inr (), ?t')"
    using d fresh Cons.prems(1) by (simp add: add_def Let_def update_fresh)
  have IH: "addMany (map (\<lambda>(key, doc). \<lparr>vd_id = sd_id doc, vd_content = sd_content doc,
           vd_vector = sd_vector doc, vd_metadata = sd_metadata doc\<rparr>) ds) ?t'
         = (Inr (), ?t'\<lparr>documents := documents ?t' @ ds\<rparr>)"
    using Cons.prems p by (intro Cons.IH) auto
  show ?case using step IH p by simp
qed

lemma import_export:
  assumes "store_inv s"
  shows "import (export s) = Inr (s\<lparr>bm25Index := None\<rparr>)"
proof -
  let ?t = "newVectorStore (dimensions s) (Some (distance s))"
  have "addMany (ex_documents (export s)) ?t
          = (Inr (), ?t\<lparr>documents := documents ?t @ documents s\<rparr>)"
    unfolding export_def using assms
    by (simp, intro addMany_restore) (auto simp: newVectorStore_def store_inv_def)
  then show ?thesis
    by (simp add: import_def export_def newVectorStore_def)
qed

section \<open>The claims about the vector store\<close>


text \<open>
  C2. For every document whose vector length differs from the store's dimensions,
  \<open>add\<close> throws the dimension error and the store after the call is the store before
  it: same size, same documents, same keyword index.
\<close>

theorem add_mismatch_unchanged:
  assumes "length (vd_vector doc) \<noteq> dimensions s"
  shows "add doc s = (Inl (DimensionMismatch (dimensions s) (length (vd_vector doc))), s) \<and>
         size_store (snd (add doc s)) = size_store s \<and>
         documents (snd (add doc s)) = documents s \<and>
         (\<forall>i. get i (snd (add doc s)) = get i s)"
  using assms by (simp add: add_rejects)

theorem add_mismatch_unchanged_witness:
  "length (vd_vector (docA\<lparr>vd_vector := [1, 2, 3]\<rparr>)) \<noteq> dimensions exampleStore \<and>
   add (docA\<lparr>vd_vector := [1, 2, 3]\<rparr>) exampleStore = (Inl (DimensionMismatch 2 3), exampleStore) \<and>
   size_store (snd (add (docA\<lparr>vd_vector := [1, 2, 3]\<rparr>) exampleStore)) = 2"
proof -
  have h: "length (vd_vector (docA\<lparr>vd_vector := [1, 2, 3]\<rparr>)) \<noteq> dimensions exampleStore"
    by (simp add: exampleStore_def docA_def docB_def add_def newVectorStore_def Let_def)
  have d: "dimensions exampleStore = 2" "size_store exampleStore = 2"
    by (simp_all add: exampleStore_def docA_def docB_def add_def newVectorStore_def Let_def
          size_store_def)
  show ?thesis
    using h add_mismatch_unchanged [OF h] d by simp
qed

text \<open>
  C3. For every store \<open>s\<close> the class can build, \<open>VectorStore.import(s.export())\<close> succeeds
  and yields a store of the same size, dimensions and metric whose documents are those
  of \<open>s\<close>, in the same order, each with identical id, content, vector and metadata.
\<close>

theorem export_import_roundtrip:
  assumes "reachable s"
  shows "\<exists>s'. import (export s) = Inr s' \<and>
           size_store s' = size_store s \<and>
           dimensions s' = dimensions s \<and>
           distance s' = distance s \<and>
           documents s' = documents s \<and>
           (\<forall>i. get i s' = get i s)"
  using import_export [OF reachable_inv [OF assms]]
  by (simp add: size_store_def get_def)

theorem export_import_roundtrip_witness:
  "reachable exampleStore \<and>
   (\<exists>s'. import (export exampleStore) = Inr s' \<and>
      size_store s' = size_store exampleStore \<and>
      dimensions s' = dimensions exampleStore \<and>
      distance s' = distance exampleStore \<and>
      documents s' = documents exampleStore \<and>
      (\<forall>i. get i s' = get i exampleStore))"
  using reachable_exampleStore export_import_roundtrip [OF reachable_exampleStore]
  by simp

text \<open>
  C4, as amended. For every vector \<open>A\<close>, with the norms computed in the loop or passed
  in precomputed, as the store does: when \<open>A\<close> is the zero vector, the cosine distance
  of \<open>A\<close> to itself is 1 and the similarity 0; when the sum of squares the code computes
  for \<open>A\<close> is not 0 and at most \<open>2^1023\<close>, the distance lies between 0 and
  \<open>8 * 2^(-53)\<close> and the similarity between \<open>1 - 9 * 2^(-53)\<close> and 1. Nothing is stated
  for a vector other than zero whose squares underflow to the sum 0, nor for one whose
  squares overflow; the upper bound keeps every intermediate result below the largest
  double.
\<close>

theorem cosine_identical_vectors:
  assumes "na = None \<or> na = Some (computeNorm a)"
    and "nb = None \<or> nb = Some (computeNorm a)"
  shows "(list_all (\<lambda>x. x = 0) a \<longrightarrow>
            cosineDistance a a na nb = 1 \<and>
            similarityOf Cosine (cosineDistance a a na nb) = 0) \<and>
         (normLoop a 0 \<noteq> 0 \<and> normLoop a 0 \<le> 2 powi 1023 \<longrightarrow>
            0 \<le> cosineDistance a a na nb \<and>
            cosineDistance a a na nb \<le> 8 * unitRoundoff \<and>
            1 - 9 * unitRoundoff \<le> similarityOf Cosine (cosineDistance a a na nb) \<and>
            similarityOf Cosine (cosineDistance a a na nb) \<le> 1)"
  using cosine_self_zero [OF assms] cosine_self_bounds [OF assms] normLoop_zeros [of a]
  by blast

theorem cosine_identical_vectors_witness:
  "list_all (\<lambda>x. x = 0) [0, 0 :: real] \<and>
   cosineDistance [0, 0] [0, 0] (Some (computeNorm [0, 0])) (Some (computeNorm [0, 0])) = 1 \<and>
   normLoop [3, 4] 0 \<noteq> 0 \<and> normLoop [3, 4] 0 \<le> 2 powi 1023 \<and>
   0 \<le> cosineDistance [3, 4] [3, 4] (Some (computeNorm [3, 4])) (Some (computeNorm [3, 4])) \<and>
   cosineDistance [3, 4] [3, 4] (Some (computeNorm [3, 4])) (Some (computeNorm [3, 4]))
     \<le> 8 * unitRoundoff \<and>
   1 - 9 * unitRoundoff \<le> similarityOf Cosine
     (cosineDistance [3, 4] [3, 4] (Some (computeNorm [3, 4])) (Some (computeNorm [3, 4])))"
proof -
  have z: "list_all (\<lambda>x. x = 0) [0, 0 :: real]" by simp
  have n: "normLoop [3, 4] 0 = 25" by simp
  have lo: "normLoop [3, 4] 0 \<noteq> 0" by (simp add: n)
  have "(2::real) powi 5 \<le> 2 powi 1023" by (rule power_int_increasing) simp_all
  then have hi: "normLoop [3, 4] 0 \<le> 2 powi 1023" by (simp add: n)
  show ?thesis
    using z lo hi
      cosine_identical_vectors [of "Some (computeNorm [0, 0])" "[0, 0]"
        "Some (computeNorm [0, 0])"]
      cosine_identical_vectors [of "Some (computeNorm [3, 4])" "[3, 4]"
        "Some (computeNorm [3, 4])"]
    by blast
qed

text \<open>
  C4 as stated fails for the zero vector: \<open>denom === 0\<close> makes \<open>cosineDistance\<close> return
  1, so the distance of the zero vector to itself is 1 and the similarity 0.
\<close>

theorem cosine_zero_vector_counterexample:
  "cosineDistance [0, 0, 0] [0, 0, 0] None None = 1 \<and>
   cosineDistance [0, 0, 0] [0, 0, 0]
     (Some (computeNorm [0, 0, 0])) (Some (computeNorm [0, 0, 0])) = 1 \<and>
   similarityOf Cosine (cosineDistance [0, 0, 0] [0, 0, 0] None None) = 0"
  by (simp add: cosineDistance_def computeNorm_def similarityOf_def)

text \<open>
  C9. For every document \<open>d\<close> whose vector has the configured length and whose id is the
  id of a stored document, \<open>add(d)\<close> succeeds, the store then returns \<open>d\<close> (content,
  vector, metadata) for that id, its size and the order of its ids are unchanged, and
  every other document is as before.
\<close>

theorem add_existing_id_upsert:
  assumes "length (vd_vector doc) = dimensions s"
    and "get (vd_id doc) s \<noteq> None"
  shows "fst (add doc s) = Inr () \<and>
         size_store (snd (add doc s)) = size_store s \<and>
         get (vd_id doc) (snd (add doc s)) = Some doc \<and>
         (\<forall>i. i \<noteq> vd_id doc \<longrightarrow> get i (snd (add doc s)) = get i s) \<and>
         map fst (documents (snd (add doc s))) = map fst (documents s)"
proof -
  from assms(2) have "map_of (documents s) (vd_id doc) \<noteq> None"
    by (auto simp: get_def split: option.splits)
  then have mem: "vd_id doc \<in> fst ` set (documents s)"
    by (simp add: map_of_eq_None_iff)
  then have keys: "map fst (AList.update (vd_id doc) v (documents s)) = map fst (documents s)"
    for v by (simp add: update_keys)
  show ?thesis
    using add_accepts [OF assms(1)] mem keys
    by (auto simp: size_store_def get_def length_update_present update_conv')
qed

theorem add_existing_id_upsert_witness:
  "length (vd_vector (docB\<lparr>vd_id := ''a''\<rparr>)) = dimensions exampleStore \<and>
   get (vd_id (docB\<lparr>vd_id := ''a''\<rparr>)) exampleStore \<noteq> None \<and>
   fst (add (docB\<lparr>vd_id := ''a''\<rparr>) exampleStore) = Inr () \<and>
   size_store (snd (add (docB\<lparr>vd_id := ''a''\<rparr>) exampleStore)) = 2 \<and>
   get ''a'' (snd (add (docB\<lparr>vd_id := ''a''\<rparr>) exampleStore)) = Some (docB\<lparr>vd_id := ''a''\<rparr>)"
proof -
  have h1: "length (vd_vector (docB\<lparr>vd_id := ''a''\<rparr>)) = dimensions exampleStore"
    by (simp add: exampleStore_def docA_def docB_def add_def newVectorStore_def Let_def)
  have h2: "get (vd_id (docB\<lparr>vd_id := ''a''\<rparr>)) exampleStore \<noteq> None"
    by (simp add: exampleStore_def docA_def docB_def add_def newVectorStore_def Let_def
          get_def)
  have d: "size_store exampleStore = 2" "vd_id (docB\<lparr>vd_id := ''a''\<rparr>) = ''a''"
    by (simp_all add: exampleStore_def docA_def docB_def add_def newVectorStore_def Let_def
          size_store_def)
  show ?thesis
    using h1 h2 add_existing_id_upsert [OF h1 h2] d by simp
qed

section \<open>Properties of the session cache\<close>

lemma fold_cleanup:
  "fold (\<lambda>(key, val) m. if now - e_lastAccess val > STORE_TTL then AList.delete key m else m) xs m
   = filter (\<lambda>(key, val). key \<notin> expiredKeys now xs) m"
proof (induction xs arbitrary: m)
  case Nil
  then show ?case by (simp add: expiredKeys_def)
next
  case (Cons p xs)
  obtain k v where p: "p = (k, v)" by (cases p)
  show ?case
  proof (cases "now - e_lastAccess v > STORE_TTL")
    case True
    then have "expiredKeys now (p # xs) = insert k (expiredKeys now xs)"
      using p by (auto simp: expiredKeys_def)
    then show ?thesis
      using True p Cons.IH[of "AList.delete k m"]
      by (auto simp: AList.delete_eq intro!: filter_cong)
  next
    case False
    then have "expiredKeys now (p # xs) = expiredKeys now xs"
      using p by (auto simp: expiredKeys_def)
    then show ?thesis using False p Cons.IH[of m] by simp
  qed
qed

lemma cleanup_fields:
  "ragStores (cleanupExpiredStores w) =
     filter (\<lambda>(key, val). key \<notin> expiredKeys (clock w (ticks w)) (ragStores w)) (ragStores w) \<and>
   staticData (cleanupExpiredStores w) = staticData w \<and>
   embedCalls (cleanupExpiredStores w) = embedCalls w \<and>
   clock (cleanupExpiredStores w) = clock w \<and>
   ticks (cleanupExpiredStores w) = Suc (ticks w) \<and>
   randoms (cleanupExpiredStores w) = randoms w \<and>
   draws (cleanupExpiredStores w) = draws w"
  by (simp add: cleanupExpiredStores_def Date_now_def fold_cleanup)

lemma cleanup_live:
  assumes "(key, val) \<in> set (ragStores (cleanupExpiredStores w))"
  shows "clock w (ticks w) - e_lastAccess val \<le> STORE_TTL \<and> (key, val) \<in> set (ragStores w)"
  using assms by (auto simp: cleanup_fields expiredKeys_def)

lemma cleanup_keeps:
  assumes "distinct (map fst (ragStores w))"
    and "map_of (ragStores w) key = Some val"
    and "\<not> clock w (ticks w) - e_lastAccess val > STORE_TTL"
  shows "map_of (ragStores (cleanupExpiredStores w)) key = Some val"
proof -
  have mem: "(key, val) \<in> set (ragStores w)" using assms(2) by (rule map_of_SomeD)
  have "key \<notin> expiredKeys (clock w (ticks w)) (ragStores w)"
  proof
    assume "key \<in> expiredKeys (clock w (ticks w)) (ragStores w)"
    then obtain v' where v': "(key, v') \<in> set (ragStores w)"
      "clock w (ticks w) - e_lastAccess v' > STORE_TTL"
      by (auto simp: expiredKeys_def)
    with assms(1) mem have "v' = val" by (meson eq_key_imp_eq_value)
    with v' assms(3) show False by simp
  qed
  then have "(key, val) \<in> set (ragStores (cleanupExpiredStores w))"
    using mem by (simp add: cleanup_fields)
  moreover have "distinct (map fst (ragStores (cleanupExpiredStores w)))"
    using assms(1) by (simp add: cleanup_fields distinct_map_filter)
  ultimately show ?thesis by simp
qed

lemma cleanup_distinct:
  "distinct (map fst (ragStores w)) \<Longrightarrow> distinct (map fst (ragStores (cleanupExpiredStores w)))"
  by (simp add: cleanup_fields distinct_map_filter)


lemma load_world:
  "snd (loadFromStaticData rag w) = w \<or> snd (loadFromStaticData rag w) = w\<lparr>ticks := Suc (ticks w)\<rparr>"
  by (simp add: loadFromStaticData_def Date_now_def split: option.splits stored.splits sum.splits)

lemma load_Some:
  assumes "loadFromStaticData rag w = (Some e, w')"
  shows "w' = w\<lparr>ticks := Suc (ticks w)\<rparr> \<and> e_lastAccess e = clock w (ticks w)"
  using assms
  by (auto simp: loadFromStaticData_def Date_now_def split: option.splits stored.splits sum.splits if_splits)

lemma load_None:
  assumes "loadFromStaticData rag w = (None, w')"
  shows "w' = w"
  using assms
  by (auto simp: loadFromStaticData_def Date_now_def split: option.splits stored.splits sum.splits if_splits)

lemma getStore_hit:
  assumes "map_of (ragStores (cleanupExpiredStores w)) (rm_storeKey rag) = Some e"
  shows "getStore rag w = touch (rm_storeKey rag) e (cleanupExpiredStores w)"
  using assms by (simp add: getStore_def Let_def Date_now_def touch_def)

lemma getStore_fresh:
  assumes "map_of (ragStores (cleanupExpiredStores w)) (rm_storeKey rag) = None"
    and "\<not> (persistToStaticData (rm_config rag) = Some True \<and> rm_executeFunctions rag \<noteq> None) \<or>
         fst (loadFromStaticData rag (cleanupExpiredStores w)) = None"
  shows "getStore rag w =
     (let w1 = cleanupExpiredStores w;
          e = \<lparr>e_store = configureBM25 [''content'']
                        (newVectorStore (cfg_dimensions (rm_config rag)) (Some Cosine)),
               e_messages = [], e_lastAccess = clock w1 (ticks w1)\<rparr>
      in touch (rm_storeKey rag) e
           (w1\<lparr>ticks := Suc (ticks w1), ragStores := AList.update (rm_storeKey rag) e (ragStores w1)\<rparr>))"
proof -
  let ?w1 = "cleanupExpiredStores w"
  have "(if persistToStaticData (rm_config rag) = Some True \<and> rm_executeFunctions rag \<noteq> None
         then loadFromStaticData rag ?w1 else (None, ?w1)) = (None, ?w1)"
    using assms(2) load_None[of rag ?w1] by (cases "loadFromStaticData rag ?w1") auto
  then show ?thesis
    using assms(1)
    by (simp add: getStore_def Let_def Date_now_def touch_def freshEntry_def)
qed

lemma getStore_loaded:
  assumes "map_of (ragStores (cleanupExpiredStores w)) (rm_storeKey rag) = None"
    and "persistToStaticData (rm_config rag) = Some True" and "rm_executeFunctions rag \<noteq> None"
    and "fst (loadFromStaticData rag (cleanupExpiredStores w)) = Some e"
  shows "getStore rag w =
     (let w1 = cleanupExpiredStores w
      in touch (rm_storeKey rag) e
           (w1\<lparr>ticks := Suc (ticks w1), ragStores := AList.update (rm_storeKey rag) e (ragStores w1)\<rparr>))"
proof -
  let ?w1 = "cleanupExpiredStores w"
  obtain w' where l: "loadFromStaticData rag ?w1 = (Some e, w')"
    using assms(4) by (cases "loadFromStaticData rag ?w1") auto
  from load_Some[OF l] have w': "w' = ?w1\<lparr>ticks := Suc (ticks ?w1)\<rparr>" by simp
  show ?thesis
    using assms(1,2,3) l w'
    by (simp add: getStore_def Let_def Date_now_def touch_def)
qed


lemma getStore_result:
  "ragStores (snd (getStore rag w)) =
      AList.update (rm_storeKey rag) (fst (getStore rag w)) (ragStores (cleanupExpiredStores w)) \<and>
   staticData (snd (getStore rag w)) = staticData w \<and>
   embedCalls (snd (getStore rag w)) = embedCalls w \<and>
   clock (snd (getStore rag w)) = clock w \<and>
   randoms (snd (getStore rag w)) = randoms w \<and>
   draws (snd (getStore rag w)) = draws w \<and>
   ticks w < ticks (snd (getStore rag w)) \<and>
   (\<exists>n > ticks w. e_lastAccess (fst (getStore rag w)) = clock w n)"
proof (cases "map_of (ragStores (cleanupExpiredStores w)) (rm_storeKey rag)")
  case (Some e)
  show ?thesis
    unfolding getStore_hit[OF Some]
    by (auto simp: touch_def cleanup_fields)
next
  case None
  show ?thesis
  proof (cases "persistToStaticData (rm_config rag) = Some True \<and> rm_executeFunctions rag \<noteq> None \<and>
         fst (loadFromStaticData rag (cleanupExpiredStores w)) \<noteq> None")
    case True
    then obtain e where e: "fst (loadFromStaticData rag (cleanupExpiredStores w)) = Some e" by auto
    from True have p: "persistToStaticData (rm_config rag) = Some True" "rm_executeFunctions rag \<noteq> None"
      by auto
    show ?thesis
      unfolding getStore_loaded[OF None p e]
      by (auto simp: touch_def cleanup_fields Let_def intro!: exI[of _ "Suc (Suc (ticks w))"])
  next
    case False
    then have f: "\<not> (persistToStaticData (rm_config rag) = Some True \<and> rm_executeFunctions rag \<noteq> None) \<or>
         fst (loadFromStaticData rag (cleanupExpiredStores w)) = None" by auto
    show ?thesis
      unfolding getStore_fresh[OF None f]
      by (auto simp: touch_def cleanup_fields Let_def intro!: exI[of _ "Suc (Suc (ticks w))"])
  qed
qed

lemma getStore_evicts:
  assumes mono: "\<forall>i j. i \<le> j \<longrightarrow> clock w i \<le> clock w j"
    and mem: "(key, val) \<in> set (ragStores (snd (getStore rag w)))"
  shows "clock w (ticks w) - e_lastAccess val \<le> STORE_TTL"
proof -
  from mem have "(key, val) \<in> insert (rm_storeKey rag, fst (getStore rag w))
       (set (ragStores (cleanupExpiredStores w)))"
    using getStore_result[of rag w] set_update_subset by fastforce
  then show ?thesis
  proof
    assume "(key, val) = (rm_storeKey rag, fst (getStore rag w))"
    then have "val = fst (getStore rag w)" by simp
    then obtain n where "n > ticks w" "e_lastAccess val = clock w n"
      using getStore_result[of rag w] by auto
    with mono have "clock w (ticks w) \<le> e_lastAccess val" by simp
    then show ?thesis by (simp add: STORE_TTL_def)
  next
    assume "(key, val) \<in> set (ragStores (cleanupExpiredStores w))"
    then show ?thesis using cleanup_live by blast
  qed
qed

lemma getStore_evicts_others:
  assumes "(key, val) \<in> set (ragStores (snd (getStore rag w)))" and "key \<noteq> rm_storeKey rag"
  shows "clock w (ticks w) - e_lastAccess val \<le> STORE_TTL"
proof -
  from assms(1) have "(key, val) \<in> insert (rm_storeKey rag, fst (getStore rag w))
       (set (ragStores (cleanupExpiredStores w)))"
    using getStore_result[of rag w] set_update_subset by fastforce
  with assms(2) have "(key, val) \<in> set (ragStores (cleanupExpiredStores w))" by simp
  then show ?thesis using cleanup_live by blast
qed

lemma clear_removes: "rm_storeKey rag \<notin> fst ` set (ragStores (clear rag w))"
  by (simp add: clear_def Let_def delete_notin_dom)


lemma trim_blank: "trim t = [] \<longleftrightarrow> (\<forall>c \<in> set t. isWhiteSpace c)"
proof
  assume "trim t = []"
  then have all: "\<forall>c \<in> set (dropWhile isWhiteSpace t). isWhiteSpace c"
    by (simp add: trim_def)
  have "dropWhile isWhiteSpace t = []"
  proof (rule ccontr)
    assume ne: "dropWhile isWhiteSpace t \<noteq> []"
    then have "\<not> isWhiteSpace (hd (dropWhile isWhiteSpace t))" by (rule hd_dropWhile)
    moreover have "hd (dropWhile isWhiteSpace t) \<in> set (dropWhile isWhiteSpace t)"
      using ne by simp
    ultimately show False using all by blast
  qed
  then show "\<forall>c \<in> set t. isWhiteSpace c" by simp
next
  assume "\<forall>c \<in> set t. isWhiteSpace c"
  then have d: "dropWhile isWhiteSpace t = []" by simp
  show "trim t = []" unfolding trim_def d by simp
qed

lemma addMessage_skip:
  assumes "msg_role m = System \<or> trim (msg_content m) = []"
  shows "addMessage rag m w = (Inr (), snd (getStore rag w))"
  using assms by (auto simp: addMessage_def split: prod.splits)

lemma getStore_live:
  assumes "distinct (map fst (ragStores w))"
    and "map_of (ragStores w) (rm_storeKey rag) = Some e"
    and "\<not> clock w (ticks w) - e_lastAccess e > STORE_TTL"
  shows "\<exists>e'. map_of (ragStores (snd (getStore rag w))) (rm_storeKey rag) = Some e' \<and>
           fst (getStore rag w) = e' \<and>
           e_store e' = e_store e \<and> e_messages e' = e_messages e"
proof -
  have "map_of (ragStores (cleanupExpiredStores w)) (rm_storeKey rag) = Some e"
    using assms by (rule cleanup_keeps)
  then have "getStore rag w = touch (rm_storeKey rag) e (cleanupExpiredStores w)"
    by (rule getStore_hit)
  then show ?thesis by (simp add: touch_def update_conv')
qed

lemma getStore_registered:
  "map_of (ragStores (snd (getStore rag w))) (rm_storeKey rag) = Some (fst (getStore rag w))"
  using getStore_result[of rag w] by (simp add: update_conv')

lemma embed_unsupported:
  "rm_embed rag = None \<Longrightarrow> embed rag t w = (Inl EmbeddingsUnsupported, w)"
  by (simp add: embed_def)

lemma embed_called:
  "rm_embed rag = Some f \<Longrightarrow>
   embedCalls (snd (embed rag t w)) = embedCalls w @ [[t]] \<and>
   (\<forall>e. f [t] = Inl e \<longrightarrow> fst (embed rag t w) = Inl e)"
  by (simp add: embed_def Let_def split: sum.splits)

lemma getContext_embed:
  "embedCalls (snd (getContext ab rag q k w)) = embedCalls (snd (embed rag q (snd (getStore rag w)))) \<and>
   (\<forall>e. fst (embed rag q (snd (getStore rag w))) = Inl e \<longrightarrow> fst (getContext ab rag q k w) = Inl e)"
  by (auto simp: getContext_def Let_def split: prod.splits sum.splits)

lemma add_dimensions: "dimensions (snd (add doc s)) = dimensions s"
  by (simp add: add_def Let_def split: option.splits)

lemma addMany_mismatch:
  assumes "\<exists>doc \<in> set docs. length (vd_vector doc) \<noteq> dimensions s"
  shows "\<exists>e. fst (addMany docs s) = Inl e"
  using assms
proof (induction docs arbitrary: s)
  case Nil
  then show ?case by simp
next
  case (Cons d docs)
  show ?case
  proof (cases "length (vd_vector d) = dimensions s")
    case False
    then show ?thesis by (simp add: add_rejects)
  next
    case True
    obtain u s' where a: "add d s = (Inr u, s')"
      using add_accepts[OF True] by (cases "add d s") auto
    then have "dimensions s' = dimensions s" using add_dimensions[of d s] by simp
    with Cons.prems True have "\<exists>doc \<in> set docs. length (vd_vector doc) \<noteq> dimensions s'" by auto
    from Cons.IH[OF this] a show ?thesis by simp
  qed
qed

lemma import_mismatch:
  assumes "\<exists>doc \<in> set (ex_documents data). length (vd_vector doc) \<noteq> ex_dimensions data"
  shows "\<exists>e. import data = Inl e"
proof -
  have "\<exists>e. fst (addMany (ex_documents data)
          (newVectorStore (ex_dimensions data) (Some (ex_distance data)))) = Inl e"
    using assms by (intro addMany_mismatch) (simp add: newVectorStore_def)
  then show ?thesis
    by (auto simp: import_def split: prod.splits sum.splits)
qed


lemma getStore_distinct:
  assumes "distinct (map fst (ragStores w))"
  shows "distinct (map fst (ragStores (snd (getStore rag w))))"
  using getStore_result[of rag w] cleanup_distinct[OF assms]
  by (simp add: distinct_update)

lemma load_unreadable:
  assumes "map_of (staticData w) (staticKey rag) = Some v" and "unreadable v"
  shows "fst (loadFromStaticData rag w) = None"
proof (cases v)
  case StoredOther
  with assms(1) show ?thesis by (simp add: loadFromStaticData_def)
next
  case (StoredString parsed)
  show ?thesis
  proof (cases parsed)
    case None
    with StoredString assms(1) show ?thesis by (simp add: loadFromStaticData_def)
  next
    case (Some data)
    show ?thesis
    proof (cases "pb_store data")
      case None
      with Some StoredString assms(1) show ?thesis by (simp add: loadFromStaticData_def)
    next
      case (Some sd)
      with \<open>parsed = Some data\<close> StoredString assms(2)
      have "\<exists>doc \<in> set (ex_documents sd). length (vd_vector doc) \<noteq> ex_dimensions sd"
        by (simp add: unreadable_def)
      then obtain e where "import sd = Inl e" using import_mismatch by blast
      with Some \<open>parsed = Some data\<close> StoredString assms(1) show ?thesis
        by (simp add: loadFromStaticData_def)
    qed
  qed
qed

lemma addMany_matching:
  assumes "\<forall>doc \<in> set docs. length (vd_vector doc) = dimensions s"
  shows "\<exists>s'. addMany docs s = (Inr (), s')"
  using assms
proof (induction docs arbitrary: s)
  case Nil
  then show ?case by simp
next
  case (Cons d docs)
  then have m: "length (vd_vector d) = dimensions s" by simp
  obtain u s' where a: "add d s = (Inr u, s')"
    using add_accepts[OF m] by (cases "add d s") auto
  then have "dimensions s' = dimensions s" using add_dimensions[of d s] by simp
  with Cons.prems have "\<forall>doc \<in> set docs. length (vd_vector doc) = dimensions s'" by simp
  from Cons.IH[OF this] a show ?case by simp
qed

lemma import_matching:
  assumes "\<forall>doc \<in> set (ex_documents data). length (vd_vector doc) = ex_dimensions data"
  shows "\<exists>st. import data = Inr st"
proof -
  have "\<exists>s'. addMany (ex_documents data)
          (newVectorStore (ex_dimensions data) (Some (ex_distance data))) = (Inr (), s')"
    using assms by (intro addMany_matching) (simp add: newVectorStore_def)
  then show ?thesis by (auto simp: import_def)
qed

lemma readable_cases:
  assumes "\<not> unreadable v"
  shows "\<exists>data sd st. v = StoredString (Some data) \<and> pb_store data = Some sd \<and>
           import sd = Inr st"
proof -
  from assms obtain data sd where v: "v = StoredString (Some data)" "pb_store data = Some sd"
    and m: "\<forall>doc \<in> set (ex_documents sd). length (vd_vector doc) = ex_dimensions sd"
    by (auto simp: unreadable_def split: stored.splits option.splits)
  from import_matching[OF m] v show ?thesis by blast
qed

lemma load_readable:
  assumes "rm_executeFunctions rag \<noteq> None"
    and "map_of (staticData w) (staticKey rag) = Some (StoredString (Some data))"
    and "pb_store data = Some sd" and "import sd = Inr st"
  shows "fst (loadFromStaticData rag w) =
           Some \<lparr>e_store = configureBM25 [''content''] st,
                 e_messages = (case pb_messages data of None \<Rightarrow> [] | Some ms \<Rightarrow> ms),
                 e_lastAccess = clock w (ticks w)\<rparr>"
  using assms by (simp add: loadFromStaticData_def Date_now_def)

section \<open>The claims about the session cache and the facade\<close>

text \<open>
  C5, as amended. For every message whose role is \<open>system\<close> or whose content is empty
  or white space only, \<open>addMessage\<close> succeeds and does nothing but the cache access it
  starts with: the state after it is the state after \<open>getStore\<close>, the Embedder is not
  invoked, nothing is persisted, and when the session's entry is in the registry and
  not expired, its store (documents and keyword index) and its message list are
  unchanged.
\<close>

theorem addMessage_skips_system_and_blank:
  assumes "msg_role m = System \<or> (\<forall>c \<in> set (msg_content m). isWhiteSpace c)"
  shows "addMessage rag m w = (Inr (), snd (getStore rag w)) \<and>
         embedCalls (snd (addMessage rag m w)) = embedCalls w \<and>
         staticData (snd (addMessage rag m w)) = staticData w \<and>
         (\<forall>e. distinct (map fst (ragStores w)) \<and>
              map_of (ragStores w) (rm_storeKey rag) = Some e \<and>
              clock w (ticks w) - e_lastAccess e \<le> STORE_TTL \<longrightarrow>
              (\<exists>e'. map_of (ragStores (snd (addMessage rag m w))) (rm_storeKey rag) = Some e' \<and>
                    e_store e' = e_store e \<and> e_messages e' = e_messages e))"
proof -
  from assms have "msg_role m = System \<or> trim (msg_content m) = []"
    by (simp add: trim_blank)
  then have eq: "addMessage rag m w = (Inr (), snd (getStore rag w))"
    by (rule addMessage_skip)
  have live: "\<exists>e'. map_of (ragStores (snd (getStore rag w))) (rm_storeKey rag) = Some e' \<and>
                    e_store e' = e_store e \<and> e_messages e' = e_messages e"
    if "distinct (map fst (ragStores w))" "map_of (ragStores w) (rm_storeKey rag) = Some e"
       "clock w (ticks w) - e_lastAccess e \<le> STORE_TTL" for e
    using getStore_live[of w rag e] that by auto
  show ?thesis
    using eq getStore_result[of rag w] live by auto
qed

theorem addMessage_skips_system_and_blank_witness:
  "list_all isWhiteSpace (msg_content blankMessage) \<and>
   distinct (map fst (ragStores liveWorld)) \<and>
   map_of (ragStores liveWorld) (rm_storeKey exampleRag) = Some liveEntry \<and>
   clock liveWorld (ticks liveWorld) - e_lastAccess liveEntry \<le> STORE_TTL \<and>
   addMessage exampleRag blankMessage liveWorld = (Inr (), snd (getStore exampleRag liveWorld)) \<and>
   embedCalls (snd (addMessage exampleRag blankMessage liveWorld)) = embedCalls liveWorld \<and>
   staticData (snd (addMessage exampleRag blankMessage liveWorld)) = staticData liveWorld \<and>
   (\<exists>e'. map_of (ragStores (snd (addMessage exampleRag blankMessage liveWorld)))
            (rm_storeKey exampleRag) = Some e' \<and>
          e_store e' = e_store liveEntry \<and> e_messages e' = e_messages liveEntry)"
proof -
  have a: "\<forall>c \<in> set (msg_content blankMessage). isWhiteSpace c"
    by (simp add: blankMessage_def isWhiteSpace_def)
  then have h: "msg_role blankMessage = System \<or>
                (\<forall>c \<in> set (msg_content blankMessage). isWhiteSpace c)" ..
  have pre: "distinct (map fst (ragStores liveWorld)) \<and>
             map_of (ragStores liveWorld) (rm_storeKey exampleRag) = Some liveEntry \<and>
             clock liveWorld (ticks liveWorld) - e_lastAccess liveEntry \<le> STORE_TTL"
    by (simp add: liveWorld_def exampleWorld_def exampleRag_def newRAGMemory_def
          exampleConfig_def STORE_TTL_def liveEntry_def)
  have a': "list_all isWhiteSpace (msg_content blankMessage)"
    using a by (simp add: list_all_iff)
  show ?thesis
    using a' pre addMessage_skips_system_and_blank [OF h, of exampleRag liveWorld]
    by blast
qed

text \<open>
  C5 as stated fails when the session's entry has expired: the cache access that
  \<open>addMessage\<close> starts with evicts it and registers a fresh entry, so after adding a
  system message the session's message list is empty where it held one message.
\<close>

theorem addMessage_system_expired_counterexample:
  "msg_role systemMessage = System \<and>
   map_option e_messages (map_of (ragStores exampleWorld) (rm_storeKey exampleRag))
     = Some [exampleMessage] \<and>
   map_option e_messages
     (map_of (ragStores (snd (addMessage exampleRag systemMessage exampleWorld)))
        (rm_storeKey exampleRag)) = Some [] \<and>
   [exampleMessage] \<noteq> []"
  by (simp add: systemMessage_def exampleWorld_def exampleRag_def newRAGMemory_def
        exampleConfig_def addMessage_def getStore_def cleanupExpiredStores_def Date_now_def
        STORE_TTL_def freshEntry_def Let_def)

text \<open>
  C6, as amended. With persistence on and no live entry for the session, a stored value
  that is not a string, does not parse, has no \<open>store\<close>, or holds a document whose
  vector length is not the stored \<open>dimensions\<close> is treated as a cache miss: the loader
  returns \<open>null\<close> and \<open>getStore\<close> registers and returns a fresh empty entry (an empty
  cosine store of the configured dimension, no messages); the facade call that made
  the access returns normally. \<open>getStore\<close> has no failing outcome at all. Every other
  stored value is restored as it is: the entry holds the imported store, of the stored
  dimension and metric, and the stored messages, or none when the value has no
  \<open>messages\<close>.
\<close>

theorem unreadable_blob_is_cache_miss:
  assumes "persistToStaticData (rm_config rag) = Some True"
    and "rm_executeFunctions rag \<noteq> None"
    and "map_of (ragStores (cleanupExpiredStores w)) (rm_storeKey rag) = None"
    and "map_of (staticData w) (staticKey rag) = Some v"
  shows "(unreadable v \<longrightarrow>
            fst (loadFromStaticData rag (cleanupExpiredStores w)) = None \<and>
            e_store (fst (getStore rag w)) =
              configureBM25 [''content'']
                (newVectorStore (cfg_dimensions (rm_config rag)) (Some Cosine)) \<and>
            size_store (e_store (fst (getStore rag w))) = 0 \<and>
            e_messages (fst (getStore rag w)) = [] \<and>
            map_of (ragStores (snd (getStore rag w))) (rm_storeKey rag)
              = Some (fst (getStore rag w)) \<and>
            fst (getMessages rag w) = []) \<and>
         (\<not> unreadable v \<longrightarrow>
            (\<exists>data sd st. v = StoredString (Some data) \<and> pb_store data = Some sd \<and>
               import sd = Inr st \<and>
               e_store (fst (getStore rag w)) = configureBM25 [''content''] st \<and>
               e_messages (fst (getStore rag w)) =
                 (case pb_messages data of None \<Rightarrow> [] | Some ms \<Rightarrow> ms)))"
proof -
  let ?w1 = "cleanupExpiredStores w"
  have sd: "map_of (staticData ?w1) (staticKey rag) = Some v"
    using assms(4) by (simp add: cleanup_fields)
  have U: "fst (loadFromStaticData rag ?w1) = None \<and>
          e_store (fst (getStore rag w)) =
            configureBM25 [''content'']
              (newVectorStore (cfg_dimensions (rm_config rag)) (Some Cosine)) \<and>
          size_store (e_store (fst (getStore rag w))) = 0 \<and>
          e_messages (fst (getStore rag w)) = [] \<and>
          map_of (ragStores (snd (getStore rag w))) (rm_storeKey rag)
            = Some (fst (getStore rag w)) \<and>
          fst (getMessages rag w) = []" if u: "unreadable v"
  proof -
    from sd u have l: "fst (loadFromStaticData rag ?w1) = None"
      by (rule load_unreadable)
    then have "\<not> (persistToStaticData (rm_config rag) = Some True \<and>
                  rm_executeFunctions rag \<noteq> None) \<or>
               fst (loadFromStaticData rag ?w1) = None" by simp
    note g = getStore_fresh [OF assms(3) this]
    have st: "e_store (fst (getStore rag w)) =
             configureBM25 [''content'']
               (newVectorStore (cfg_dimensions (rm_config rag)) (Some Cosine))"
      and ms: "e_messages (fst (getStore rag w)) = []"
      unfolding g by (simp_all add: Let_def touch_def)
    have sz: "size_store (e_store (fst (getStore rag w))) = 0"
      unfolding st by (simp add: size_store_def configureBM25_def newVectorStore_def)
    have gm: "fst (getMessages rag w) = []"
      using ms by (cases "getStore rag w") (simp add: getMessages_def)
    show ?thesis
      using l st sz ms gm getStore_registered[of rag w] by simp
  qed
  have R: "\<exists>data sd st. v = StoredString (Some data) \<and> pb_store data = Some sd \<and>
            import sd = Inr st \<and>
            e_store (fst (getStore rag w)) = configureBM25 [''content''] st \<and>
            e_messages (fst (getStore rag w)) =
              (case pb_messages data of None \<Rightarrow> [] | Some ms \<Rightarrow> ms)" if "\<not> unreadable v"
  proof -
    from that obtain data sd' st where v: "v = StoredString (Some data)"
      and p: "pb_store data = Some sd'" and i: "import sd' = Inr st"
      using readable_cases by blast
    from sd v have "map_of (staticData ?w1) (staticKey rag) = Some (StoredString (Some data))"
      by simp
    from load_readable [OF assms(2) this p i]
    have l: "fst (loadFromStaticData rag ?w1) =
           Some \<lparr>e_store = configureBM25 [''content''] st,
                 e_messages = (case pb_messages data of None \<Rightarrow> [] | Some ms \<Rightarrow> ms),
                 e_lastAccess = clock ?w1 (ticks ?w1)\<rparr>" .
    note g = getStore_loaded [OF assms(3) assms(1) assms(2) l]
    have "e_store (fst (getStore rag w)) = configureBM25 [''content''] st"
      and "e_messages (fst (getStore rag w)) =
             (case pb_messages data of None \<Rightarrow> [] | Some ms \<Rightarrow> ms)"
      unfolding g by (simp_all add: Let_def touch_def)
    with v p i show ?thesis by blast
  qed
  show ?thesis using U R by blast
qed

theorem unreadable_blob_is_cache_miss_witness:
  "persistToStaticData (rm_config persistRag) = Some True \<and>
   rm_executeFunctions persistRag \<noteq> None \<and>
   map_of (ragStores (cleanupExpiredStores (persistedWorld (StoredString (Some blobBadVector)))))
     (rm_storeKey persistRag) = None \<and>
   map_of (staticData (persistedWorld (StoredString (Some blobBadVector)))) (staticKey persistRag)
     = Some (StoredString (Some blobBadVector)) \<and>
   unreadable (StoredString (Some blobBadVector)) \<and>
   size_store (e_store (fst (getStore persistRag
     (persistedWorld (StoredString (Some blobBadVector)))))) = 0 \<and>
   e_messages (fst (getStore persistRag
     (persistedWorld (StoredString (Some blobBadVector))))) = [] \<and>
   fst (getMessages persistRag (persistedWorld (StoredString (Some blobBadVector)))) = []"
proof -
  let ?v = "StoredString (Some blobBadVector)"
  have h1: "persistToStaticData (rm_config persistRag) = Some True"
    and h2: "rm_executeFunctions persistRag \<noteq> None"
    by (simp_all add: persistRag_def newRAGMemory_def exampleConfig_def)
  have h3: "map_of (ragStores (cleanupExpiredStores (persistedWorld ?v)))
              (rm_storeKey persistRag) = None"
    by (simp add: persistedWorld_def exampleWorld_def cleanupExpiredStores_def Date_now_def)
  have h4: "map_of (staticData (persistedWorld ?v)) (staticKey persistRag) = Some ?v"
    by (simp add: persistedWorld_def exampleWorld_def staticKey_def persistRag_def
          newRAGMemory_def exampleConfig_def)
  have h5: "unreadable ?v"
    by (simp add: unreadable_def blobBadVector_def docA_def)
  show ?thesis
    using h1 h2 h3 h4 h5 unreadable_blob_is_cache_miss [OF h1 h2 h3 h4] by blast
qed

text \<open>
  C6 as stated fails for a blob of the wrong shape that restores without a throw. A
  blob without the \<open>messages\<close> property is accepted (\<open>data.messages || []\<close>): the
  session's entry is the restored store with its two documents, not a fresh empty
  one. A blob written for another embedding dimension is accepted as well: the entry's
  store has dimension 5 where the session is configured for 2.
\<close>

theorem restorable_wrong_shape_counterexample:
  "pb_messages blobWithoutMessages = None \<and>
   size_store (e_store (fst (getStore persistRag
      (persistedWorld (StoredString (Some blobWithoutMessages)))))) = 2 \<and>
   cfg_dimensions (rm_config persistRag) = 2 \<and>
   dimensions (e_store (fst (getStore persistRag
      (persistedWorld (StoredString (Some blobOtherDimensions)))))) = 5"
  by (simp add: blobWithoutMessages_def blobOtherDimensions_def persistedWorld_def
        exampleWorld_def persistRag_def newRAGMemory_def exampleConfig_def getStore_def
        cleanupExpiredStores_def Date_now_def loadFromStaticData_def staticKey_def
        import_def export_def example_defs configureBM25_def)

text \<open>
  C7. After any cache access (\<open>getStore\<close>, for any session), every entry left in the
  registry under another key has an idle time of at most the TTL of one hour, measured
  at the time the access read; the entry of the accessed session is stamped by a later
  read of the clock, so with a clock that does not run backwards (\<open>mono\<close>) no entry at
  all, whatever its key, is idle for longer than the TTL. \<open>clear\<close> removes the entry of
  the calling session whatever its age.
\<close>

theorem access_evicts_expired_and_clear_removes:
  "(\<forall>(key, val) \<in> set (ragStores (snd (getStore rag w))).
      key \<noteq> rm_storeKey rag \<longrightarrow> clock w (ticks w) - e_lastAccess val \<le> STORE_TTL) \<and>
   (\<exists>n > ticks w. e_lastAccess (fst (getStore rag w)) = clock w n) \<and>
   map_of (ragStores (snd (getStore rag w))) (rm_storeKey rag) = Some (fst (getStore rag w)) \<and>
   (mono (clock w) \<longrightarrow>
      (\<forall>(key, val) \<in> set (ragStores (snd (getStore rag w))).
         clock w (ticks w) - e_lastAccess val \<le> STORE_TTL)) \<and>
   STORE_TTL = 60 * 60 * 1000 \<and>
   rm_storeKey rag \<notin> fst ` set (ragStores (clear rag w)) \<and>
   map_of (ragStores (clear rag w)) (rm_storeKey rag) = None"
proof -
  have others: "\<forall>(key, val) \<in> set (ragStores (snd (getStore rag w))).
      key \<noteq> rm_storeKey rag \<longrightarrow> clock w (ticks w) - e_lastAccess val \<le> STORE_TTL"
    using getStore_evicts_others by blast
  have stamp: "\<exists>n > ticks w. e_lastAccess (fst (getStore rag w)) = clock w n"
    using getStore_result [of rag w] by blast
  have all: "\<forall>(key, val) \<in> set (ragStores (snd (getStore rag w))).
            clock w (ticks w) - e_lastAccess val \<le> STORE_TTL" if "mono (clock w)"
  proof -
    from that have "\<forall>i j. i \<le> j \<longrightarrow> clock w i \<le> clock w j"
      by (simp add: mono_def)
    from getStore_evicts [OF this] show ?thesis by blast
  qed
  have gone: "rm_storeKey rag \<notin> fst ` set (ragStores (clear rag w))"
    by (rule clear_removes)
  then have none: "map_of (ragStores (clear rag w)) (rm_storeKey rag) = None"
    by (simp add: map_of_eq_None_iff)
  show ?thesis
    using others stamp getStore_registered [of rag w] all gone none
    by (simp add: STORE_TTL_def)
qed

theorem access_evicts_expired_and_clear_removes_witness:
  "mono (clock exampleWorld) \<and>
   map fst (ragStores exampleWorld) = [''wf__s1'', ''wf__s2''] \<and>
   map fst (ragStores (snd (getStore exampleRag exampleWorld))) = [''wf__s1''] \<and>
   list_all (\<lambda>(key, val). clock exampleWorld (ticks exampleWorld) - e_lastAccess val \<le> STORE_TTL)
     (ragStores (snd (getStore exampleRag exampleWorld))) \<and>
   map_of (ragStores (clear exampleRag exampleWorld)) (rm_storeKey exampleRag) = None"
proof -
  have h: "mono (clock exampleWorld)"
    by (simp add: exampleWorld_def mono_def)
  have k: "map fst (ragStores exampleWorld) = [''wf__s1'', ''wf__s2'']"
    by (simp add: exampleWorld_def)
  have e: "map fst (ragStores (snd (getStore exampleRag exampleWorld))) = [''wf__s1'']"
    by (simp add: exampleWorld_def exampleRag_def newRAGMemory_def exampleConfig_def
          getStore_def cleanupExpiredStores_def Date_now_def STORE_TTL_def freshEntry_def
          Let_def)
  show ?thesis
    using h k e access_evicts_expired_and_clear_removes [of exampleRag exampleWorld]
    by (simp add: list_all_iff)
qed

text \<open>
  C10. In every search mode and whatever the session's index holds, \<open>getContext\<close>
  invokes the Embedder exactly once, on the query, and a failure of that call is the
  outcome of \<open>getContext\<close>, so no search result is used before it; when the provider has
  no \<open>embed\<close>, \<open>getContext\<close> fails with the capability error, the Embedder not being
  invoked.
\<close>

theorem getContext_embeds_query_first:
  "(rm_embed rag = None \<longrightarrow>
      fst (getContext ab rag q k w) = Inl EmbeddingsUnsupported \<and>
      embedCalls (snd (getContext ab rag q k w)) = embedCalls w) \<and>
   (\<forall>f. rm_embed rag = Some f \<longrightarrow>
      embedCalls (snd (getContext ab rag q k w)) = embedCalls w @ [[q]] \<and>
      (\<forall>e. f [q] = Inl e \<longrightarrow> fst (getContext ab rag q k w) = Inl e))"
proof (intro conjI impI allI)
  assume n: "rm_embed rag = None"
  from embed_unsupported [OF n, of q "snd (getStore rag w)"] getContext_embed [of ab rag q k w]
  show "fst (getContext ab rag q k w) = Inl EmbeddingsUnsupported"
    by simp
  from embed_unsupported [OF n, of q "snd (getStore rag w)"] getContext_embed [of ab rag q k w]
    getStore_result [of rag w]
  show "embedCalls (snd (getContext ab rag q k w)) = embedCalls w"
    by simp
next
  fix f assume s: "rm_embed rag = Some f"
  from embed_called [OF s, of q "snd (getStore rag w)"] getContext_embed [of ab rag q k w]
    getStore_result [of rag w]
  show "embedCalls (snd (getContext ab rag q k w)) = embedCalls w @ [[q]]"
    by simp
next
  fix f e assume s: "rm_embed rag = Some f" and e: "f [q] = Inl e"
  from embed_called [OF s, of q "snd (getStore rag w)"] e getContext_embed [of ab rag q k w]
  show "fst (getContext ab rag q k w) = Inl e"
    by simp
qed

theorem getContext_embeds_query_first_witness:
  "rm_embed exampleRag = None \<and>
   searchMode (rm_config exampleRag) = Some KeywordMode \<and>
   fst (getContext exampleAbsent exampleRag ''cats'' None liveWorld) = Inl EmbeddingsUnsupported \<and>
   rm_embed exampleRagEmbedding = Some exampleEmbed \<and>
   embedCalls (snd (getContext exampleAbsent exampleRagEmbedding ''cats'' None liveWorld))
     = [[''cats'']]"
proof -
  have h1: "rm_embed exampleRag = None"
    and h2: "rm_embed exampleRagEmbedding = Some exampleEmbed"
    and m: "searchMode (rm_config exampleRag) = Some KeywordMode"
    by (simp_all add: exampleRag_def exampleRagEmbedding_def newRAGMemory_def exampleConfig_def)
  have i: "embedCalls liveWorld = []"
    by (simp add: liveWorld_def exampleWorld_def)
  show ?thesis
    using h1 h2 m i
      getContext_embeds_query_first [of exampleRag exampleAbsent "''cats''" None liveWorld]
      getContext_embeds_query_first [of exampleRagEmbedding exampleAbsent "''cats''" None liveWorld]
    by simp
qed

section \<open>Properties of hybrid search\<close>







lemma fuse_ids:
  "map hr_id (map (fusedEntry sc vs ks) ids) = ids"
  by (induction ids) (simp_all add: fusedEntry_def)







subsection \<open>Weighted fusion of one list\<close>



subsection \<open>The rankings of the two searches\<close>
















subsection \<open>The example evaluated\<close>






section \<open>The claim about weighted fusion\<close>



end
